theory Spec2Isabelle
  imports Main
begin

section \<open>Data model of the reminder session (ReminderScreen.tsx)\<close>

text \<open>
  The page of the session, the union type of the \<^verbatim>\<open>currentPage\<close> state
  (\<^verbatim>\<open>'theory1' | 'theory2' | 'task' | 'explanation' | 'completion'\<close>).
\<close>

datatype page = Theory1 | Theory2 | Task | Explanation | Completion

text \<open>
  One multiple-choice task and one reminder, the fields the screen reads from a
  \<^verbatim>\<open>ReminderResponse\<close>: \<^verbatim>\<open>theory.content\<close>, \<^verbatim>\<open>theory.keyPoints\<close> and
  \<^verbatim>\<open>tasks[i].{difficulty, question, options, correctAnswer, explanation}\<close>.
  \<^verbatim>\<open>correctAnswer\<close> is a number produced by the content provider, so it is an
  \<open>int\<close> and not bounded by the number of options.
\<close>

record task =
  difficulty :: string
  question :: string
  options :: "string list"
  correctAnswer :: int
  explanation :: string

record reminder =
  theoryContent :: string
  keyPoints :: "string list"
  tasks :: "task list"

record lesson =
  subject :: string
  topic :: "string option"
  homework :: "string option"
  date :: string

text \<open>
  The component's props. \<^verbatim>\<open>username\<close> and \<^verbatim>\<open>onCoinsUpdated\<close> are optional
  (\<^verbatim>\<open>username?: string\<close>); of the callback only its presence matters.
\<close>

record props =
  selectedSubjects :: "string list"
  lessons :: "lesson list"
  username :: "string option"
  hasOnCoinsUpdated :: bool

text \<open>The component state, one field per \<^verbatim>\<open>useState\<close> (lines 25 to 40).\<close>

record session =
  currentSubjectIndex :: nat
  currentTaskIndex :: nat
  selectedAnswer :: "int option"
  currentPage :: page
  reminders :: "string \<rightharpoonup> reminder"
  isLoading :: bool
  error :: "string option"
  totalCoinsEarned :: nat
  correctAnswers :: nat
  totalQuestions :: nat
  subjectCorrectAnswers :: "string \<rightharpoonup> nat"
  subjectTotalQuestions :: "string \<rightharpoonup> nat"
  awardedQuestions :: "string set"
  awardedBonuses :: "string set"
  canClaimCompletionBonus :: bool
  hasClaimedBonus :: bool

text \<open>
  What a handler sends out of the component: calls of the Reward Ledger
  (\<^verbatim>\<open>utils/database\<close>), of the Content Provider (\<^verbatim>\<open>utils/openai\<close>), of the
  callbacks in the props, and the console and alert messages. Both call sites of
  \<^verbatim>\<open>addCoins(username, n)\<close> are the one constructor \<open>AddCoins\<close>; its first
  argument records the call site: \<^verbatim>\<open>awardCoins\<close> with its question key, or the
  perfect-score branch of \<^verbatim>\<open>handleNext\<close> with its subject.
\<close>

datatype origin = ForQuestion string | ForPerfectScore string

datatype call =
    AddCoins origin string nat
  | MarkSubjectCompleted string string
  | AreAllDailyTasksCompleted string nat
  | HasClaimedCompletionBonusToday string
  | ClaimCompletionBonus string
  | GenerateRemindersForSubjects "string list"
  | OnCoinsUpdated int
  | OnClose
  | ConsoleWarn string
  | ConsoleError string
  | Alert string string

section \<open>JavaScript helpers\<close>

text \<open>
  Truthiness of an optional string: \<^verbatim>\<open>undefined\<close> and the empty string are falsy.
\<close>

definition truthy :: "string option \<Rightarrow> bool" where
  "truthy v = (case v of None \<Rightarrow> False | Some x \<Rightarrow> x \<noteq> [])"

text \<open>\<^verbatim>\<open>xs[i]\<close>: \<^verbatim>\<open>undefined\<close> out of range.\<close>

definition nth_opt :: "'a list \<Rightarrow> nat \<Rightarrow> 'a option" where
  "nth_opt xs i = (if i < length xs then Some (xs ! i) else None)"

text \<open>\<^verbatim>\<open>m.get(k) || 0\<close> on a map of numbers.\<close>

definition get_or_0 :: "(string \<rightharpoonup> nat) \<Rightarrow> string \<Rightarrow> nat" where
  "get_or_0 m k = (case m k of None \<Rightarrow> 0 | Some n \<Rightarrow> n)"

text \<open>
  \<^verbatim>\<open>Array.from(new Set(xs))\<close>: a JavaScript \<^verbatim>\<open>Set\<close> iterates in insertion order,
  and adding an element it already holds changes nothing.
\<close>

definition set_add :: "'a list \<Rightarrow> 'a \<Rightarrow> 'a list" where
  "set_add acc x = (if x \<in> set acc then acc else acc @ [x])"

definition array_from_new_Set :: "'a list \<Rightarrow> 'a list" where
  "array_from_new_Set xs = foldl set_add [] xs"

text \<open>The decimal digits of a number, as a template literal prints it.\<close>

definition digit_char :: "nat \<Rightarrow> char" where
  "digit_char d = (''0123456789'' ! d)"

function show_nat :: "nat \<Rightarrow> string" where
  "show_nat n = (if n < 10 then [digit_char n] else show_nat (n div 10) @ [digit_char (n mod 10)])"
  by pat_completeness auto
termination
  by (relation "measure id") auto

declare show_nat.simps [simp del]

section \<open>Subject-set resolution (lines 42 to 57)\<close>

definition allUniqueSubjects :: "lesson list \<Rightarrow> string list" where
  "allUniqueSubjects ls = filter (\<lambda>s. s \<noteq> []) (array_from_new_Set (map subject ls))"

definition subjectsToDisplay :: "props \<Rightarrow> string list" where
  "subjectsToDisplay P =
     (if length (selectedSubjects P) > 0
      then filter (\<lambda>s. s \<in> set (allUniqueSubjects (lessons P))) (selectedSubjects P)
      else allUniqueSubjects (lessons P))"

definition currentSubject :: "props \<Rightarrow> session \<Rightarrow> string option" where
  "currentSubject P s = nth_opt (subjectsToDisplay P) (currentSubjectIndex s)"

definition currentReminder :: "props \<Rightarrow> session \<Rightarrow> reminder option" where
  "currentReminder P s =
     (case currentSubject P s of
        None \<Rightarrow> None
      | Some c \<Rightarrow> if c \<noteq> [] then reminders s c else None)"

definition currentTask :: "props \<Rightarrow> session \<Rightarrow> task option" where
  "currentTask P s =
     (case currentReminder P s of
        None \<Rightarrow> None
      | Some r \<Rightarrow> nth_opt (tasks r) (currentTaskIndex s))"

text \<open>\<^verbatim>\<open>currentReminder?.tasks.length || 0\<close>.\<close>

definition tasksLength :: "props \<Rightarrow> session \<Rightarrow> nat" where
  "tasksLength P s = (case currentReminder P s of None \<Rightarrow> 0 | Some r \<Rightarrow> length (tasks r))"

text \<open>
  The subject-set resolution as the specification words it: the caller's selection
  filtered to the subjects present in the lesson set, or, for an empty selection, the
  lessons' subjects without duplicates in the order of their first occurrence.
\<close>

fun dedup_first :: "'a list \<Rightarrow> 'a list" where
  "dedup_first [] = []"
| "dedup_first (x # xs) = x # dedup_first (filter (\<lambda>y. y \<noteq> x) xs)"

definition spec_subject_resolution :: "string list \<Rightarrow> lesson list \<Rightarrow> string list" where
  "spec_subject_resolution sel ls =
     (if sel \<noteq> []
      then filter (\<lambda>s. s \<in> set (map subject ls)) sel
      else dedup_first (map subject ls))"

section \<open>Session start: reset and content fetch (lines 59 to 104)\<close>

text \<open>The state a mounted component starts from: the defaults of the \<^verbatim>\<open>useState\<close> calls.\<close>

definition initialSession :: session where
  "initialSession =
     \<lparr> currentSubjectIndex = 0, currentTaskIndex = 0, selectedAnswer = None,
       currentPage = Theory1, reminders = Map.empty, isLoading = True, error = None,
       totalCoinsEarned = 0, correctAnswers = 0, totalQuestions = 0,
       subjectCorrectAnswers = Map.empty, subjectTotalQuestions = Map.empty,
       awardedQuestions = {}, awardedBonuses = {},
       canClaimCompletionBonus = False, hasClaimedBonus = False \<rparr>"

text \<open>
  \<^verbatim>\<open>loadReminders\<close>. The outcome of the awaited
  \<^verbatim>\<open>generateRemindersForSubjects\<close> is a parameter: \<open>Inr\<close> the map it resolves to,
  \<open>Inl\<close> the \<^verbatim>\<open>message\<close> of the error object it rejects with (\<open>None\<close> when
  the object has none). The \<^verbatim>\<open>catch\<close> block logs and stores
  \<^verbatim>\<open>err.message || 'Failed to generate reminders. ...'\<close>.
\<close>

definition fetchFailedMessage :: string where
  "fetchFailedMessage =
     ''Failed to generate reminders. Make sure your Google Gemini API key is configured.''"

definition loadReminders ::
  "props \<Rightarrow> (string option + (string \<rightharpoonup> reminder)) \<Rightarrow> session \<Rightarrow> session \<times> call list" where
  "loadReminders P fetched s =
     (let s1 = s\<lparr>isLoading := True, error := None\<rparr>;
          allUnique = filter (\<lambda>x. x \<noteq> []) (array_from_new_Set (map subject (lessons P)));
          subjectsToRemind =
            (if length (selectedSubjects P) > 0
             then filter (\<lambda>x. x \<in> set allUnique) (selectedSubjects P)
             else allUnique)
      in if length subjectsToRemind = 0
         then (s1\<lparr>error := Some ''No subjects available for reminders'', isLoading := False\<rparr>, [])
         else (case fetched of
                 Inr generatedReminders \<Rightarrow>
                   (s1\<lparr>reminders := generatedReminders, isLoading := False\<rparr>,
                    [GenerateRemindersForSubjects subjectsToRemind])
               | Inl message \<Rightarrow>
                   (s1\<lparr>error := Some (if truthy message then the message else fetchFailedMessage),
                      isLoading := False\<rparr>,
                    [GenerateRemindersForSubjects subjectsToRemind,
                     ConsoleError ''Error loading reminders:''])))"

text \<open>The effect run for a new pair of subject selection and lessons (lines 59 to 71).\<close>

definition resetEffect ::
  "props \<Rightarrow> (string option + (string \<rightharpoonup> reminder)) \<Rightarrow> session \<Rightarrow> session \<times> call list" where
  "resetEffect P fetched s =
     loadReminders P fetched
       (s\<lparr>totalCoinsEarned := 0, correctAnswers := 0, totalQuestions := 0,
          subjectCorrectAnswers := Map.empty, subjectTotalQuestions := Map.empty,
          awardedQuestions := {}, awardedBonuses := {},
          canClaimCompletionBonus := False, hasClaimedBonus := False\<rparr>)"

definition startSession ::
  "props \<Rightarrow> (string option + (string \<rightharpoonup> reminder)) \<Rightarrow> session \<times> call list" where
  "startSession P fetched = resetEffect P fetched initialSession"

section \<open>Answer submission (lines 106 to 168)\<close>

text \<open>
  \<^verbatim>\<open>awardCoins\<close>. The outcome of the awaited \<^verbatim>\<open>addCoins\<close> is a parameter:
  \<open>Inr\<close> the new total it resolves to, \<open>Inl ()\<close> a rejection, which the
  \<^verbatim>\<open>catch\<close> block logs. Both state setters run before the call is issued.
\<close>

definition awardCoins ::
  "props \<Rightarrow> (unit + int) \<Rightarrow> bool \<Rightarrow> string \<Rightarrow> session \<Rightarrow> session \<times> call list" where
  "awardCoins P added isCorrect questionKey s =
     (if \<not> truthy (username P) then (s, [])
      else if questionKey \<in> awardedQuestions s
      then (s, [ConsoleWarn ''Coins already awarded for this question, skipping...''])
      else
        (let coinsToAward = (if isCorrect then 10 else 5);
             s1 = s\<lparr>totalCoinsEarned := totalCoinsEarned s + coinsToAward\<rparr>;
             s2 = s1\<lparr>awardedQuestions := insert questionKey (awardedQuestions s1)\<rparr>;
             issued = AddCoins (ForQuestion questionKey) (the (username P)) coinsToAward
         in case added of
              Inr newCoins \<Rightarrow>
                (s2, issued # (if hasOnCoinsUpdated P then [OnCoinsUpdated newCoins] else []))
            | Inl _ \<Rightarrow> (s2, [issued, ConsoleError ''Error awarding coins:''])))"

text \<open>The key of a question: \<^verbatim>\<open>`${currentSubject}-${currentTaskIndex}-${currentTask.question}`\<close>.\<close>

definition questionKey :: "string \<Rightarrow> nat \<Rightarrow> string \<Rightarrow> string" where
  "questionKey subj i q = subj @ ''-'' @ show_nat i @ ''-'' @ q"

text \<open>
  \<^verbatim>\<open>handleAnswerSelect\<close>. The per-subject counters are read from the maps as they
  were when the handler started, which \<^verbatim>\<open>awardCoins\<close> does not touch.
\<close>

definition handleAnswerSelect ::
  "props \<Rightarrow> (unit + int) \<Rightarrow> int \<Rightarrow> session \<Rightarrow> session \<times> call list" where
  "handleAnswerSelect P added answerIndex s =
     (if selectedAnswer s \<noteq> None \<or> currentTask P s = None \<or> \<not> truthy (currentSubject P s)
      then (s, [])
      else
        (let t = the (currentTask P s);
             subj = the (currentSubject P s);
             key = questionKey subj (currentTaskIndex s) (question t);
             s1 = s\<lparr>selectedAnswer := Some answerIndex\<rparr>;
             isCorrect = (answerIndex = correctAnswer t);
             (s2, calls) = awardCoins P added isCorrect key s1;
             s3 = (if isCorrect then s2\<lparr>correctAnswers := correctAnswers s2 + 1\<rparr> else s2);
             s4 = s3\<lparr>totalQuestions := totalQuestions s3 + 1\<rparr>;
             currentSubjectCorrect = get_or_0 (subjectCorrectAnswers s) subj;
             currentSubjectTotal = get_or_0 (subjectTotalQuestions s) subj;
             s5 = (if isCorrect
                   then s4\<lparr>subjectCorrectAnswers :=
                              (subjectCorrectAnswers s)(subj \<mapsto> currentSubjectCorrect + 1)\<rparr>
                   else s4);
             s6 = s5\<lparr>subjectTotalQuestions :=
                        (subjectTotalQuestions s)(subj \<mapsto> currentSubjectTotal + 1)\<rparr>
         in (s6\<lparr>currentPage := Explanation\<rparr>, calls)))"

section \<open>Forward and backward transitions (lines 170 to 252)\<close>

text \<open>
  What the Reward Ledger answers to the four calls \<^verbatim>\<open>handleNext\<close> awaits:
  \<^verbatim>\<open>markSubjectCompleted\<close> (its value is not used), \<^verbatim>\<open>addCoins(username, 20)\<close>
  (the new total), \<^verbatim>\<open>areAllDailyTasksCompleted\<close> and
  \<^verbatim>\<open>hasClaimedCompletionBonusToday\<close>. Each is \<open>Inr\<close> the value the call resolves
  to or \<open>Inl ()\<close> a rejection. \<^verbatim>\<open>handleNext\<close> awaits them outside any
  \<^verbatim>\<open>try\<close> block: a rejection ends the handler at that \<^verbatim>\<open>await\<close>, with the
  setters called so far in effect and the rest of the handler not run.
\<close>

record replies =
  markReply :: "unit + unit"
  addCoinsReply :: "unit + int"
  allCompleted :: "unit + bool"
  alreadyClaimed :: "unit + bool"

text \<open>
  The outcome of a part of the handler: \<open>Inr\<close> when it ran to its end, \<open>Inl\<close>
  when an awaited call rejected, either way with the state it leaves and the calls it
  issued. \<open>andThen\<close> runs the next part after one that ran to its end;
  \<open>settled\<close> forgets how the handler ended.
\<close>

type_synonym outcome = "(session \<times> call list) + (session \<times> call list)"

definition andThen :: "outcome \<Rightarrow> (session \<Rightarrow> outcome) \<Rightarrow> outcome" where
  "andThen r f =
     (case r of
        Inl x \<Rightarrow> Inl x
      | Inr (s, calls) \<Rightarrow>
          (case f s of
             Inl (s', calls') \<Rightarrow> Inl (s', calls @ calls')
           | Inr (s', calls') \<Rightarrow> Inr (s', calls @ calls')))"

definition settled :: "outcome \<Rightarrow> session \<times> call list" where
  "settled r = (case r of Inl x \<Rightarrow> x | Inr x \<Rightarrow> x)"

definition perfectScoreBonusKey :: "string \<Rightarrow> string" where
  "perfectScoreBonusKey subj = ''perfect-'' @ subj"

text \<open>
  A handler reads the state through the variables of the render in which its button was
  pressed (\<open>s0\<close> below) and writes with setters, which act on the state of the moment
  (\<open>s\<close>). When it runs undisturbed the two are the same, as in \<^verbatim>\<open>handleNext\<close>
  below.

  Lines 189 to 204, after \<^verbatim>\<open>await markSubjectCompleted(...)\<close>: the perfect-score
  bonus. The key is added to \<^verbatim>\<open>awardedBonuses\<close> before \<^verbatim>\<open>addCoins\<close> is
  awaited, the 20 coins are added to the session's total after it.
\<close>

definition perfectScoreBonus :: "props \<Rightarrow> replies \<Rightarrow> session \<Rightarrow> session \<Rightarrow> outcome" where
  "perfectScoreBonus P env s0 s =
     (let subj = the (currentSubject P s0);
          user = the (username P);
          subjectCorrect = get_or_0 (subjectCorrectAnswers s0) subj;
          subjectTotal = get_or_0 (subjectTotalQuestions s0) subj
      in if subjectTotal = 3 \<and> subjectCorrect = 3
            \<and> (case currentReminder P s0 of None \<Rightarrow> False | Some r \<Rightarrow> length (tasks r) = 3)
            \<and> perfectScoreBonusKey subj \<notin> awardedBonuses s0
         then
           (let s1 = s\<lparr>awardedBonuses := insert (perfectScoreBonusKey subj) (awardedBonuses s)\<rparr>;
                issued = AddCoins (ForPerfectScore subj) user 20
            in case addCoinsReply env of
                 Inl _ \<Rightarrow> Inl (s1, [issued])
               | Inr newCoins \<Rightarrow>
                   Inr (s1\<lparr>totalCoinsEarned := totalCoinsEarned s1 + 20\<rparr>,
                        issued # (if hasOnCoinsUpdated P then [OnCoinsUpdated newCoins] else [])))
         else Inr (s, []))"

text \<open>Lines 186 to 205: the side effects of leaving a subject's last explanation.\<close>

definition subjectCompleted :: "props \<Rightarrow> replies \<Rightarrow> session \<Rightarrow> session \<Rightarrow> outcome" where
  "subjectCompleted P env s0 s =
     (if truthy (currentSubject P s0) \<and> truthy (username P)
      then
        (let marking = MarkSubjectCompleted (the (username P)) (the (currentSubject P s0))
         in case markReply env of
              Inl _ \<Rightarrow> Inl (s, [marking])
            | Inr _ \<Rightarrow> andThen (Inr (s, [marking])) (perfectScoreBonus P env s0))
      else Inr (s, []))"

text \<open>Lines 207 to 227: on to the next subject or to the completion page.\<close>

definition nextSubjectOrCompletion :: "props \<Rightarrow> replies \<Rightarrow> session \<Rightarrow> session \<Rightarrow> outcome" where
  "nextSubjectOrCompletion P env s0 s =
     (if int (currentSubjectIndex s0) < int (length (subjectsToDisplay P)) - 1
      then Inr (s\<lparr>currentSubjectIndex := currentSubjectIndex s0 + 1, currentTaskIndex := 0,
                 selectedAnswer := None, currentPage := Theory1\<rparr>, [])
      else if truthy (username P) \<and> length (subjectsToDisplay P) > 0
      then
        (let user = the (username P);
             asked = AreAllDailyTasksCompleted user (length (subjectsToDisplay P))
         in case allCompleted env of
              Inl _ \<Rightarrow> Inl (s, [asked])
            | Inr allDone \<Rightarrow>
                if allDone
                then (case alreadyClaimed env of
                        Inl _ \<Rightarrow> Inl (s, [asked, HasClaimedCompletionBonusToday user])
                      | Inr claimed \<Rightarrow>
                          Inr (s\<lparr>canClaimCompletionBonus := \<not> claimed, currentPage := Completion\<rparr>,
                               [asked, HasClaimedCompletionBonusToday user]))
                else Inr (s\<lparr>canClaimCompletionBonus := False, currentPage := Completion\<rparr>,
                          [asked]))
      else Inr (s\<lparr>currentPage := Completion\<rparr>, []))"

definition handleNext :: "props \<Rightarrow> replies \<Rightarrow> session \<Rightarrow> session \<times> call list" where
  "handleNext P env s =
     (if currentPage s = Theory1 then (s\<lparr>currentPage := Theory2\<rparr>, [])
      else if currentPage s = Theory2
      then (s\<lparr>currentTaskIndex := 0, selectedAnswer := None, currentPage := Task\<rparr>, [])
      else if currentPage s = Explanation
      then
        (if int (currentTaskIndex s) < int (tasksLength P s) - 1
         then (s\<lparr>currentTaskIndex := currentTaskIndex s + 1, selectedAnswer := None,
                 currentPage := Task\<rparr>, [])
         else settled (andThen (subjectCompleted P env s s) (nextSubjectOrCompletion P env s)))
      else (s, []))"

text \<open>
  The last branch of \<^verbatim>\<open>handleNext\<close> from the point where
  \<^verbatim>\<open>await markSubjectCompleted(...)\<close> has resolved. Before this first
  \<^verbatim>\<open>await\<close> the branch sets nothing, so a second press of \<^verbatim>\<open>Next\<close> that
  arrives while the first still awaits the ledger belongs to the same render and
  continues with the same \<open>s0\<close>, on the state the first has left.
\<close>

definition resumeAfterMarking ::
  "props \<Rightarrow> replies \<Rightarrow> session \<Rightarrow> session \<Rightarrow> session \<times> call list" where
  "resumeAfterMarking P env s0 s =
     settled (andThen (perfectScoreBonus P env s0 s) (nextSubjectOrCompletion P env s0))"

definition handleBack :: "props \<Rightarrow> session \<Rightarrow> session" where
  "handleBack P s =
     (if currentPage s = Task \<and> currentTaskIndex s > 0
      then s\<lparr>currentTaskIndex := currentTaskIndex s - 1, selectedAnswer := None,
             currentPage := Explanation\<rparr>
      else if currentPage s = Explanation
      then s\<lparr>currentPage := Task, selectedAnswer := None\<rparr>
      else if currentPage s = Theory2
      then s\<lparr>currentPage := Theory1\<rparr>
      else if currentPage s = Theory1 \<and> currentSubjectIndex s > 0
      then
        (let s1 = s\<lparr>currentSubjectIndex := currentSubjectIndex s - 1\<rparr>;
             prevReminder =
               (case nth_opt (subjectsToDisplay P) (currentSubjectIndex s - 1) of
                  None \<Rightarrow> None
                | Some c \<Rightarrow> reminders s c)
         in case prevReminder of
              None \<Rightarrow> s1\<lparr>currentPage := Theory2\<rparr>
            | Some r \<Rightarrow>
                if length (tasks r) > 0
                then s1\<lparr>currentTaskIndex := length (tasks r) - 1, currentPage := Explanation\<rparr>
                else s1\<lparr>currentPage := Theory2\<rparr>)
      else s)"

section \<open>Claiming the completion bonus (lines 352 to 379)\<close>

text \<open>
  The value \<^verbatim>\<open>claimCompletionBonus\<close> resolves to:
  \<^verbatim>\<open>{success, coins?, message?}\<close>.
\<close>

record claim_result =
  success :: bool
  coins :: "int option"
  message :: "string option"

text \<open>
  The \<^verbatim>\<open>onPress\<close> handler of the claim button. The outcome of the awaited
  \<^verbatim>\<open>claimCompletionBonus\<close> is a parameter: \<open>Inr\<close> its result, \<open>Inl ()\<close> a
  rejection, caught and reported.
\<close>

definition claimBonus :: "props \<Rightarrow> (unit + claim_result) \<Rightarrow> session \<Rightarrow> session \<times> call list" where
  "claimBonus P claimed s =
     (if \<not> truthy (username P) then (s, [])
      else
        (let user = the (username P)
         in case claimed of
              Inr result \<Rightarrow>
                if success result \<and> coins result \<noteq> None
                then (s\<lparr>hasClaimedBonus := True, totalCoinsEarned := totalCoinsEarned s + 100,
                        canClaimCompletionBonus := False\<rparr>,
                      [ClaimCompletionBonus user]
                      @ (if hasOnCoinsUpdated P then [OnCoinsUpdated (the (coins result))] else [])
                      @ [Alert ''Bonus Claimed!''
                           ''You received 100 coins for completing all daily tasks!''])
                else (s, [ClaimCompletionBonus user,
                          Alert ''Error''
                            (if truthy (message result) then the (message result)
                             else ''Failed to claim bonus'')])
            | Inl _ \<Rightarrow>
                (s, [ClaimCompletionBonus user, ConsoleError ''Error claiming bonus:'',
                     Alert ''Error'' ''Failed to claim bonus''])))"

section \<open>What the screen offers (lines 254 to 297 and 309 to 541)\<close>

text \<open>
  The component returns one of four views: the loading view, the error view, the view
  \<^verbatim>\<open>No reminder available\<close>, or the session itself.
\<close>

datatype screen = LoadingScreen | ErrorScreen string | NoReminderScreen | SessionScreen

definition screen_of :: "props \<Rightarrow> session \<Rightarrow> screen" where
  "screen_of P s =
     (if isLoading s then LoadingScreen
      else if truthy (error s) then ErrorScreen (the (error s))
      else if currentReminder P s = None then NoReminderScreen
      else SessionScreen)"

text \<open>
  The touchable elements. The loading view has none; the error view and the view
  \<^verbatim>\<open>No reminder available\<close> have only \<^verbatim>\<open>Go Back\<close>, which is
  \<^verbatim>\<open>onClose\<close>. In the session, the option buttons are rendered on the task page
  for the options of the current task and are disabled once an answer is selected;
  \<^verbatim>\<open>Back\<close> is rendered on \<^verbatim>\<open>theory2\<close> and \<^verbatim>\<open>explanation\<close>;
  \<^verbatim>\<open>Next\<close> on every page but \<^verbatim>\<open>task\<close> and \<^verbatim>\<open>completion\<close>; the claim button
  on \<^verbatim>\<open>completion\<close> under \<^verbatim>\<open>canClaimCompletionBonus && !hasClaimedBonus\<close>;
  a close button on every page.
\<close>

datatype button = OptionButton nat | NextButton | BackButton | ClaimButton | CloseButton

definition offered :: "props \<Rightarrow> session \<Rightarrow> button \<Rightarrow> bool" where
  "offered P s b =
     (case screen_of P s of
        LoadingScreen \<Rightarrow> False
      | ErrorScreen m \<Rightarrow> (case b of CloseButton \<Rightarrow> True | _ \<Rightarrow> False)
      | NoReminderScreen \<Rightarrow> (case b of CloseButton \<Rightarrow> True | _ \<Rightarrow> False)
      | SessionScreen \<Rightarrow>
          (case b of
             CloseButton \<Rightarrow> True
           | OptionButton i \<Rightarrow>
               currentPage s = Task
               \<and> (case currentTask P s of None \<Rightarrow> False | Some t \<Rightarrow> i < length (options t))
               \<and> selectedAnswer s = None
           | NextButton \<Rightarrow> currentPage s \<noteq> Completion \<and> currentPage s \<noteq> Task
           | BackButton \<Rightarrow> currentPage s = Theory2 \<or> currentPage s = Explanation
           | ClaimButton \<Rightarrow>
               currentPage s = Completion \<and> canClaimCompletionBonus s \<and> \<not> hasClaimedBonus s))"

text \<open>
  The entry points of the session as the user reaches them: a press runs the handler
  of a button that is offered, and nothing happens otherwise.
\<close>

definition pressOption :: "props \<Rightarrow> (unit + int) \<Rightarrow> nat \<Rightarrow> session \<Rightarrow> session \<times> call list" where
  "pressOption P added i s =
     (if offered P s (OptionButton i) then handleAnswerSelect P added (int i) s else (s, []))"

definition pressNext :: "props \<Rightarrow> replies \<Rightarrow> session \<Rightarrow> session \<times> call list" where
  "pressNext P env s = (if offered P s NextButton then handleNext P env s else (s, []))"

definition pressBack :: "props \<Rightarrow> session \<Rightarrow> session \<times> call list" where
  "pressBack P s = (if offered P s BackButton then (handleBack P s, []) else (s, []))"

definition pressClaim :: "props \<Rightarrow> (unit + claim_result) \<Rightarrow> session \<Rightarrow> session \<times> call list" where
  "pressClaim P claimed s = (if offered P s ClaimButton then claimBonus P claimed s else (s, []))"

definition pressClose :: "props \<Rightarrow> session \<Rightarrow> session \<times> call list" where
  "pressClose P s = (if offered P s CloseButton then (s, [OnClose]) else (s, []))"

section \<open>Runs of a session\<close>

text \<open>
  An invocation of one of the four handlers, with what the Reward Ledger answers, and
  the run of a list of invocations in any order, collecting the calls sent out. Every
  press above is one of these invocations or does nothing.
\<close>

datatype event =
    AnswerSelect "unit + int" int
  | Next replies
  | Back
  | Claim "unit + claim_result"

definition handle :: "props \<Rightarrow> event \<Rightarrow> session \<Rightarrow> session \<times> call list" where
  "handle P e s =
     (case e of
        AnswerSelect added answerIndex \<Rightarrow> handleAnswerSelect P added answerIndex s
      | Next env \<Rightarrow> handleNext P env s
      | Back \<Rightarrow> (handleBack P s, [])
      | Claim claimed \<Rightarrow> claimBonus P claimed s)"

fun run :: "props \<Rightarrow> event list \<Rightarrow> session \<times> call list \<Rightarrow> session \<times> call list" where
  "run P [] sc = sc"
| "run P (e # es) sc =
     (case handle P e (fst sc) of (s', calls) \<Rightarrow> run P es (s', snd sc @ calls))"

text \<open>The number of \<^verbatim>\<open>addCoins\<close> calls in a log that were issued from one call site.\<close>

fun issuedFrom :: "origin \<Rightarrow> call \<Rightarrow> bool" where
  "issuedFrom orig (AddCoins orig' user n) = (orig' = orig)"
| "issuedFrom orig _ = False"

definition awardsFrom :: "origin \<Rightarrow> call list \<Rightarrow> nat" where
  "awardsFrom orig calls = length (filter (issuedFrom orig) calls)"

fun isClaimCall :: "call \<Rightarrow> bool" where
  "isClaimCall (ClaimCompletionBonus user) = True"
| "isClaimCall _ = False"

section \<open>The position of a session and the transition table of the specification\<close>

text \<open>
  The position of a session is its page, its subject index, its task index and the
  selected answer. The forward table follows the specification's rows, with
  \<open>more tasks remain\<close> read as: the task after the current one exists.
\<close>

definition pos :: "session \<Rightarrow> page \<times> nat \<times> nat \<times> int option" where
  "pos s = (currentPage s, currentSubjectIndex s, currentTaskIndex s, selectedAnswer s)"

definition moreTasksRemain :: "props \<Rightarrow> session \<Rightarrow> bool" where
  "moreTasksRemain P s = (currentTaskIndex s + 1 < tasksLength P s)"

definition moreSubjectsRemain :: "props \<Rightarrow> session \<Rightarrow> bool" where
  "moreSubjectsRemain P s = (currentSubjectIndex s + 1 < length (subjectsToDisplay P))"

section \<open>The completion bonus in the Reward Ledger\<close>

text \<open>
  Modelled from the spec: \<^verbatim>\<open>utils/database\<close>, which implements the Reward Ledger,
  is not among the sources. The ledger state holds what the completion bonus needs: the
  coin balance of each user and the users who have claimed the bonus on the current
  calendar day.
\<close>

record ledger =
  balance :: "string \<Rightarrow> int"
  claimedToday :: "string set"

text \<open>
  Modelled from the spec: \<^verbatim>\<open>hasClaimedCompletionBonusToday(user) \<rightarrow> bool\<close> of
  \<^verbatim>\<open>utils/database\<close>, absent from the sources.
\<close>

definition hasClaimedCompletionBonusToday :: "ledger \<Rightarrow> string \<Rightarrow> bool" where
  "hasClaimedCompletionBonusToday L user = (user \<in> claimedToday L)"

text \<open>
  Modelled from the spec: \<^verbatim>\<open>claimCompletionBonus(user) \<rightarrow> {success, newTotal}\<close> of
  \<^verbatim>\<open>utils/database\<close>, absent from the sources: exclusive per day whatever the
  client's flags say; a claim that succeeds adds the 100 coins of the completion bonus
  and marks the day's bonus as claimed.
\<close>

definition claimCompletionBonus :: "ledger \<Rightarrow> string \<Rightarrow> ledger \<times> claim_result" where
  "claimCompletionBonus L user =
     (if user \<in> claimedToday L
      then (L, \<lparr>success = False, coins = None, message = Some ''Bonus already claimed today''\<rparr>)
      else (L\<lparr>balance := (balance L)(user := balance L user + 100),
              claimedToday := insert user (claimedToday L)\<rparr>,
            \<lparr>success = True, coins = Some (balance L user + 100), message = None\<rparr>))"

text \<open>
  The claim button pressed against that ledger: the handler's
  \<^verbatim>\<open>claimCompletionBonus(username)\<close> is answered by the ledger.
\<close>

definition claimOnLedger :: "props \<Rightarrow> ledger \<times> session \<Rightarrow> (ledger \<times> session) \<times> call list" where
  "claimOnLedger P Ls =
     (if offered P (snd Ls) ClaimButton \<and> truthy (username P)
      then (case claimCompletionBonus (fst Ls) (the (username P)) of
              (L', result) \<Rightarrow>
                (case claimBonus P (Inr result) (snd Ls) of (s', calls) \<Rightarrow> ((L', s'), calls)))
      else (Ls, []))"

text \<open>
  The claims that reach that ledger in the course of one calendar day, by any users in
  any order, each with its result; and the number of successful claims of one user.
\<close>

fun claimAll :: "ledger \<Rightarrow> string list \<Rightarrow> (string \<times> claim_result) list" where
  "claimAll L [] = []"
| "claimAll L (user # users) =
     (case claimCompletionBonus L user of (L', result) \<Rightarrow> (user, result) # claimAll L' users)"

definition successesOf :: "string \<Rightarrow> (string \<times> claim_result) list \<Rightarrow> nat" where
  "successesOf user results = length (filter (\<lambda>ur. fst ur = user \<and> success (snd ur)) results)"

section \<open>Notions used in the properties\<close>

text \<open>The \<^verbatim>\<open>addCoins\<close> calls of a log.\<close>

fun isAddCoins :: "call \<Rightarrow> bool" where
  "isAddCoins (AddCoins orig user n) = True"
| "isAddCoins _ = False"

definition coinCalls :: "call list \<Rightarrow> call list" where
  "coinCalls calls = filter isAddCoins calls"

text \<open>
  The two guards of \<^verbatim>\<open>awardCoins\<close>: it pays for a key when a user name is present
  and the key has not been awarded in this session.
\<close>

definition pays :: "props \<Rightarrow> session \<Rightarrow> string \<Rightarrow> bool" where
  "pays P s key = (truthy (username P) \<and> key \<notin> awardedQuestions s)"

text \<open>The tasks of the subject before the current one; none when it has no reminder.\<close>

definition previousSubjectTasks :: "props \<Rightarrow> session \<Rightarrow> task list" where
  "previousSubjectTasks P s =
     (case nth_opt (subjectsToDisplay P) (currentSubjectIndex s - 1) of
        None \<Rightarrow> []
      | Some c \<Rightarrow> (case reminders s c of None \<Rightarrow> [] | Some r \<Rightarrow> tasks r))"

text \<open>A session moved to a position, every other field kept.\<close>

definition withPos :: "page \<times> nat \<times> nat \<times> int option \<Rightarrow> session \<Rightarrow> session" where
  "withPos p s =
     (case p of (pg, si, ti, ans) \<Rightarrow>
        s\<lparr>currentPage := pg, currentSubjectIndex := si, currentTaskIndex := ti,
          selectedAnswer := ans\<rparr>)"

text \<open>A press of the user, with what the Reward Ledger answers, and a list of presses.\<close>

datatype press =
    PressOption nat "unit + int"
  | PressNext replies
  | PressBack
  | PressClaim "unit + claim_result"

definition press :: "props \<Rightarrow> press \<Rightarrow> session \<Rightarrow> session \<times> call list" where
  "press P b s =
     (case b of
        PressOption i added \<Rightarrow> pressOption P added i s
      | PressNext env \<Rightarrow> pressNext P env s
      | PressBack \<Rightarrow> pressBack P s
      | PressClaim claimed \<Rightarrow> pressClaim P claimed s)"

fun presses :: "props \<Rightarrow> press list \<Rightarrow> session \<times> call list \<Rightarrow> session \<times> call list" where
  "presses P [] sc = sc"
| "presses P (b # bs) sc =
     (case press P b (fst sc) of (s', calls) \<Rightarrow> presses P bs (s', snd sc @ calls))"

text \<open>
  The mark a call site leaves in the session before it issues \<^verbatim>\<open>addCoins\<close>: the
  question key in \<^verbatim>\<open>awardedQuestions\<close>, the key \<^verbatim>\<open>perfect-<subject>\<close> in
  \<^verbatim>\<open>awardedBonuses\<close>.
\<close>

fun marked :: "origin \<Rightarrow> session \<Rightarrow> bool" where
  "marked (ForQuestion key) s = (key \<in> awardedQuestions s)"
| "marked (ForPerfectScore subj) s = (perfectScoreBonusKey subj \<in> awardedBonuses s)"

text \<open>
  The last branch of \<^verbatim>\<open>handleNext\<close> (lines 184 to 227) is ended by a rejected
  call.
\<close>

definition aborted :: "props \<Rightarrow> replies \<Rightarrow> session \<Rightarrow> bool" where
  "aborted P env s =
     (case andThen (subjectCompleted P env s s) (nextSubjectOrCompletion P env s) of
        Inl x \<Rightarrow> True
      | Inr x \<Rightarrow> False)"

text \<open>
  The condition of the perfect-score bonus in \<^verbatim>\<open>handleNext\<close> (line 195), for the
  current subject \<open>subj\<close>.
\<close>

definition perfectScore :: "props \<Rightarrow> session \<Rightarrow> string \<Rightarrow> bool" where
  "perfectScore P s subj =
     (get_or_0 (subjectTotalQuestions s) subj = 3 \<and> get_or_0 (subjectCorrectAnswers s) subj = 3
      \<and> tasksLength P s = 3 \<and> perfectScoreBonusKey subj \<notin> awardedBonuses s)"

section \<open>Concrete inputs\<close>

text \<open>The lessons with a subject name: the subjects that \<^verbatim>\<open>.filter(s => s)\<close> keeps.\<close>

definition namedLessons :: "lesson list \<Rightarrow> lesson list" where
  "namedLessons ls = filter (\<lambda>l. subject l \<noteq> []) ls"

definition lessonOn :: "string \<Rightarrow> lesson" where
  "lessonOn subj = \<lparr>subject = subj, topic = None, homework = None, date = ''2025-01-01''\<rparr>"

definition propsABAC :: props where
  "propsABAC =
     \<lparr>selectedSubjects = [],
      lessons = [lessonOn ''A'', lessonOn ''B'', lessonOn ''A'', lessonOn ''C''],
      username = Some ''juris'', hasOnCoinsUpdated = True\<rparr>"

definition propsUnnamed :: props where
  "propsUnnamed =
     \<lparr>selectedSubjects = [], lessons = [lessonOn []],
      username = Some ''juris'', hasOnCoinsUpdated = True\<rparr>"

text \<open>
  A session on two subjects, Math and Art, each with the same three tasks whose correct
  options are 1, 0 and 2, for the user \<open>juris\<close>; and the same session without a
  user name.
\<close>

definition quizTask :: "string \<Rightarrow> int \<Rightarrow> task" where
  "quizTask q c =
     \<lparr>difficulty = ''easy'', question = q, options = [''a'', ''b'', ''c'', ''d''],
      correctAnswer = c, explanation = ''because''\<rparr>"

definition quiz :: reminder where
  "quiz = \<lparr>theoryContent = ''theory'', keyPoints = [],
           tasks = [quizTask ''q1'' 1, quizTask ''q2'' 0, quizTask ''q3'' 2]\<rparr>"

definition propsTwo :: props where
  "propsTwo =
     \<lparr>selectedSubjects = [],
      lessons = [lessonOn ''Math'', lessonOn ''Art'', lessonOn ''Math''],
      username = Some ''juris'', hasOnCoinsUpdated = True\<rparr>"


definition fetchedTwo :: "string \<rightharpoonup> reminder" where
  "fetchedTwo = [''Math'' \<mapsto> quiz, ''Art'' \<mapsto> quiz]"

definition replies0 :: replies where
  "replies0 =
     \<lparr>markReply = Inr (), addCoinsReply = Inr 120, allCompleted = Inr True,
      alreadyClaimed = Inr False\<rparr>"

definition addCoinsRejected :: replies where
  "addCoinsRejected = replies0\<lparr>addCoinsReply := Inl ()\<rparr>"


definition completionCheckRejected :: replies where
  "completionCheckRejected = replies0\<lparr>allCompleted := Inl ()\<rparr>"

text \<open>The session of \<open>juris\<close>, and the anonymous one, after a list of presses.\<close>

definition after :: "press list \<Rightarrow> session" where
  "after bs = fst (presses propsTwo bs (startSession propsTwo (Inr fetchedTwo)))"


text \<open>
  Presses used below: to the first task; the first task answered correctly; back to
  it; all of Math answered correctly with the first task answered twice; all of Math
  answered correctly once; and on through Art to its last explanation.
\<close>

definition toFirstTask :: "press list" where
  "toFirstTask = [PressNext replies0, PressNext replies0]"

definition firstAnswered :: "press list" where
  "firstAnswered = toFirstTask @ [PressOption 1 (Inr 10)]"

definition backAtFirstTask :: "press list" where
  "backAtFirstTask = firstAnswered @ [PressBack]"

definition mathWithRepeat :: "press list" where
  "mathWithRepeat =
     backAtFirstTask
     @ [PressOption 1 (Inr 10), PressNext replies0, PressOption 0 (Inr 20), PressNext replies0,
        PressOption 2 (Inr 30)]"

definition mathPerfect :: "press list" where
  "mathPerfect =
     firstAnswered
     @ [PressNext replies0, PressOption 0 (Inr 20), PressNext replies0, PressOption 2 (Inr 30)]"

definition artPerfect :: "press list" where
  "artPerfect =
     mathPerfect
     @ [PressNext replies0, PressNext replies0, PressNext replies0, PressOption 1 (Inr 60),
        PressNext replies0, PressOption 0 (Inr 70), PressNext replies0, PressOption 2 (Inr 80)]"

text \<open>
  The presses that bring the session of \<open>juris\<close> onto the completion page, a claim
  the ledger grants, and a ledger on which nobody has claimed yet.
\<close>

definition toCompletion :: "press list" where
  "toCompletion = artPerfect @ [PressNext replies0]"

definition grantedClaim :: claim_result where
  "grantedClaim = \<lparr>success = True, coins = Some 250, message = None\<rparr>"

definition ledger0 :: ledger where
  "ledger0 = \<lparr>balance = (\<lambda>user. 150), claimedToday = {}\<rparr>"

section \<open>Subject-set resolution\<close>

lemma dedup_first_filter: "dedup_first (filter Q xs) = filter Q (dedup_first xs)"
proof (induction xs rule: dedup_first.induct)
  case 1
  show ?case by simp
next
  case (2 x xs)
  have comm: "filter (\<lambda>y. y \<noteq> x) (filter Q xs) = filter Q (filter (\<lambda>y. y \<noteq> x) xs)"
    by (simp add: conj_commute)
  show ?case
  proof (cases "Q x")
    case True
    have "dedup_first (filter Q (x # xs)) = x # dedup_first (filter (\<lambda>y. y \<noteq> x) (filter Q xs))"
      using True by simp
    also have "\<dots> = x # filter Q (dedup_first (filter (\<lambda>y. y \<noteq> x) xs))"
      by (simp only: comm 2)
    finally show ?thesis using True by simp
  next
    case False
    have "filter Q xs = filter Q (filter (\<lambda>y. y \<noteq> x) xs)"
      using False by (auto intro: filter_cong)
    then have "dedup_first (filter Q (x # xs)) = dedup_first (filter Q (filter (\<lambda>y. y \<noteq> x) xs))"
      using False by simp
    also have "\<dots> = filter Q (dedup_first (filter (\<lambda>y. y \<noteq> x) xs))"
      by (simp only: 2)
    finally show ?thesis using False by simp
  qed
qed

text \<open>
  Adding the elements of a list to a \<^verbatim>\<open>Set\<close> one after the other keeps each at its
  first occurrence.
\<close>

lemma foldl_set_add:
  "foldl set_add acc xs = acc @ dedup_first (filter (\<lambda>y. y \<notin> set acc) xs)"
proof (induction xs arbitrary: acc)
  case Nil
  show ?case by simp
next
  case (Cons x xs)
  show ?case
  proof (cases "x \<in> set acc")
    case True
    then show ?thesis using Cons [of acc] by (simp add: set_add_def)
  next
    case False
    have "filter (\<lambda>y. y \<notin> set (acc @ [x])) xs
            = filter (\<lambda>y. y \<noteq> x) (filter (\<lambda>y. y \<notin> set acc) xs)"
      by (auto intro: filter_cong)
    then show ?thesis using False Cons [of "acc @ [x]"] by (simp add: set_add_def)
  qed
qed

lemma array_from_new_Set_dedup: "array_from_new_Set xs = dedup_first xs"
  by (simp add: array_from_new_Set_def foldl_set_add)

lemma set_dedup_first: "set (dedup_first xs) = set xs"
  by (induction xs rule: dedup_first.induct) auto

lemma allUniqueSubjects_spec:
  "allUniqueSubjects ls = dedup_first (map subject (namedLessons ls))"
  by (simp add: allUniqueSubjects_def array_from_new_Set_dedup namedLessons_def
      dedup_first_filter [symmetric] filter_map comp_def)

lemma set_allUniqueSubjects: "set (allUniqueSubjects ls) = set (map subject (namedLessons ls))"
  by (simp only: allUniqueSubjects_spec set_dedup_first)

lemma subjectsToDisplay_spec:
  "subjectsToDisplay P = spec_subject_resolution (selectedSubjects P) (namedLessons (lessons P))"
  by (simp add: subjectsToDisplay_def spec_subject_resolution_def set_allUniqueSubjects)
     (simp add: allUniqueSubjects_spec)

text \<open>
  Claim C6, as stated, fails: a lesson whose subject is the empty string is in the
  lesson set, and the resolution drops it. With an empty selection and one such lesson
  the code resolves to no subject at all, the specification's wording to the list
  holding the empty subject.
\<close>

theorem subject_resolution_counterexample:
  "subjectsToDisplay propsUnnamed
     \<noteq> spec_subject_resolution (selectedSubjects propsUnnamed) (lessons propsUnnamed)"
  by (simp add: subjectsToDisplay_def allUniqueSubjects_def array_from_new_Set_def set_add_def
      spec_subject_resolution_def propsUnnamed_def lessonOn_def)

text \<open>
  Claim C6, amended: for every caller selection and lesson list, the effective subject
  list is the specification's resolution over the lessons that have a non-empty subject:
  the selected subjects filtered to the non-empty subjects of the lessons when the
  selection is non-empty, and otherwise the non-empty subjects of the lessons without
  duplicates in first-occurrence order. In particular lessons with the subjects
  A, B, A, C and an empty selection resolve to A, B, C.
\<close>

theorem subject_resolution:
  "subjectsToDisplay P = spec_subject_resolution (selectedSubjects P) (namedLessons (lessons P))
   \<and> (selectedSubjects P = [] \<and> map subject (lessons P) = [''A'', ''B'', ''A'', ''C'']
        \<longrightarrow> subjectsToDisplay P = [''A'', ''B'', ''C''])"
proof (intro conjI impI)
  show "subjectsToDisplay P = spec_subject_resolution (selectedSubjects P) (namedLessons (lessons P))"
    by (rule subjectsToDisplay_spec)
next
  assume a: "selectedSubjects P = [] \<and> map subject (lessons P) = [''A'', ''B'', ''A'', ''C'']"
  then have "allUniqueSubjects (lessons P) = [''A'', ''B'', ''C'']"
    by (simp add: allUniqueSubjects_def array_from_new_Set_def set_add_def)
  then show "subjectsToDisplay P = [''A'', ''B'', ''C'']"
    using a by (simp add: subjectsToDisplay_def)
qed

text \<open>
  The resolution at the lessons A, B, A, C with an empty selection.
\<close>

theorem subject_resolution_witness:
  "selectedSubjects propsABAC = []
   \<and> map subject (lessons propsABAC) = [''A'', ''B'', ''A'', ''C'']
   \<and> subjectsToDisplay propsABAC = [''A'', ''B'', ''C'']"
proof -
  have h: "selectedSubjects propsABAC = []
           \<and> map subject (lessons propsABAC) = [''A'', ''B'', ''A'', ''C'']"
    by (simp add: propsABAC_def lessonOn_def)
  have c: "subjectsToDisplay propsABAC = [''A'', ''B'', ''C'']"
    using subject_resolution [of propsABAC, THEN conjunct2, rule_format, OF h] .
  show ?thesis using h c by (simp only: simp_thms)
qed

section \<open>Backward transitions\<close>

lemma handleBack_only_pos: "handleBack P s = withPos (pos (handleBack P s)) s"
  by (simp add: handleBack_def withPos_def pos_def Let_def split: option.splits)

text \<open>
  Claim C7: \<^verbatim>\<open>handleBack\<close> changes nothing but the position, and the position only
  in these cases: from a task that is not the first to the explanation of the task before
  it, with the answer cleared; from an explanation to its task, with the answer cleared;
  from theory2 to theory1; from theory1 of a subject that is not the first to the
  explanation of the last task of the subject before it, or to that subject's theory2 if
  it has no tasks. From theory1 of the first subject, from the first task and from
  completion the state is unchanged.
\<close>

theorem retreat_table:
  "handleBack P s = withPos (pos (handleBack P s)) s
   \<and> (currentPage s = Task \<and> currentTaskIndex s > 0 \<longrightarrow>
        pos (handleBack P s) = (Explanation, currentSubjectIndex s, currentTaskIndex s - 1, None))
   \<and> (currentPage s = Explanation \<longrightarrow>
        pos (handleBack P s) = (Task, currentSubjectIndex s, currentTaskIndex s, None))
   \<and> (currentPage s = Theory2 \<longrightarrow>
        pos (handleBack P s) = (Theory1, currentSubjectIndex s, currentTaskIndex s, selectedAnswer s))
   \<and> (currentPage s = Theory1 \<and> currentSubjectIndex s > 0 \<and> previousSubjectTasks P s \<noteq> [] \<longrightarrow>
        pos (handleBack P s) =
          (Explanation, currentSubjectIndex s - 1, length (previousSubjectTasks P s) - 1,
           selectedAnswer s))
   \<and> (currentPage s = Theory1 \<and> currentSubjectIndex s > 0 \<and> previousSubjectTasks P s = [] \<longrightarrow>
        pos (handleBack P s) =
          (Theory2, currentSubjectIndex s - 1, currentTaskIndex s, selectedAnswer s))
   \<and> (currentPage s = Theory1 \<and> currentSubjectIndex s = 0 \<longrightarrow> handleBack P s = s)
   \<and> (currentPage s = Task \<and> currentTaskIndex s = 0 \<longrightarrow> handleBack P s = s)
   \<and> (currentPage s = Completion \<longrightarrow> handleBack P s = s)"
  apply (intro conjI impI)
          apply (rule handleBack_only_pos)
         apply (simp add: handleBack_def pos_def)
        apply (simp add: handleBack_def pos_def)
       apply (simp add: handleBack_def pos_def)
      apply (auto simp: handleBack_def pos_def previousSubjectTasks_def Let_def split: option.splits)[1]
     apply (auto simp: handleBack_def pos_def previousSubjectTasks_def Let_def split: option.splits)[1]
    apply (simp add: handleBack_def)
   apply (simp add: handleBack_def)
  apply (simp add: handleBack_def)
  done

text \<open>
  The backward table in the session of \<open>juris\<close>: from an explanation, from theory2, from
  theory1 of the second subject, and from theory1 of the first.
\<close>

theorem retreat_table_witness:
  "currentPage (after firstAnswered) = Explanation
   \<and> pos (handleBack propsTwo (after firstAnswered)) = (Task, 0, 0, None)
   \<and> currentPage (after [PressNext replies0]) = Theory2
   \<and> pos (handleBack propsTwo (after [PressNext replies0])) = (Theory1, 0, 0, None)
   \<and> currentPage (after (mathPerfect @ [PressNext replies0])) = Theory1
   \<and> currentSubjectIndex (after (mathPerfect @ [PressNext replies0])) > 0
   \<and> previousSubjectTasks propsTwo (after (mathPerfect @ [PressNext replies0])) \<noteq> []
   \<and> pos (handleBack propsTwo (after (mathPerfect @ [PressNext replies0])))
       = (Explanation, 0, 2, None)
   \<and> currentPage (after []) = Theory1 \<and> currentSubjectIndex (after []) = 0
   \<and> handleBack propsTwo (after []) = after []"
proof -
  have e: "currentPage (after firstAnswered) = Explanation"
    "currentSubjectIndex (after firstAnswered) = 0" "currentTaskIndex (after firstAnswered) = 0"
    by code_simp+
  have t2: "currentPage (after [PressNext replies0]) = Theory2"
    "currentSubjectIndex (after [PressNext replies0]) = 0"
    "currentTaskIndex (after [PressNext replies0]) = 0"
    "selectedAnswer (after [PressNext replies0]) = None"
    by code_simp+
  have t1: "currentPage (after (mathPerfect @ [PressNext replies0])) = Theory1"
    "currentSubjectIndex (after (mathPerfect @ [PressNext replies0])) = 1"
    "selectedAnswer (after (mathPerfect @ [PressNext replies0])) = None"
    "length (previousSubjectTasks propsTwo (after (mathPerfect @ [PressNext replies0]))) = 3"
    by code_simp+
  have ne: "previousSubjectTasks propsTwo (after (mathPerfect @ [PressNext replies0])) \<noteq> []"
    using t1(4) by auto
  have t0: "currentPage (after []) = Theory1" "currentSubjectIndex (after []) = 0"
    by code_simp+
  show ?thesis
    using retreat_table [of propsTwo "after firstAnswered"]
      retreat_table [of propsTwo "after [PressNext replies0]"]
      retreat_table [of propsTwo "after (mathPerfect @ [PressNext replies0])"]
      retreat_table [of propsTwo "after []"]
    by (simp add: e t2 t1 ne t0)
qed

section \<open>Forward transitions\<close>

lemma moreTasks_iff:
  "moreTasksRemain P s \<longleftrightarrow> int (currentTaskIndex s) < int (tasksLength P s) - 1"
  by (auto simp: moreTasksRemain_def)

lemma moreSubjects_iff:
  "moreSubjectsRemain P s \<longleftrightarrow>
     int (currentSubjectIndex s) < int (length (subjectsToDisplay P)) - 1"
  by (auto simp: moreSubjectsRemain_def)

lemma tasksLength_three:
  "(case currentReminder P s of None \<Rightarrow> False | Some r \<Rightarrow> length (tasks r) = 3)
     \<longleftrightarrow> tasksLength P s = 3"
  by (simp add: tasksLength_def split: option.splits)

text \<open>The parts of the last branch of \<^verbatim>\<open>handleNext\<close>, case by case.\<close>

lemma settled_simps:
  "settled (Inl x) = x" "settled (Inr x) = x"
  by (simp_all add: settled_def)

lemma andThen_simps:
  "andThen (Inl x) f = Inl x"
  "f s = Inl (s', calls') \<Longrightarrow> andThen (Inr (s, calls)) f = Inl (s', calls @ calls')"
  "f s = Inr (s', calls') \<Longrightarrow> andThen (Inr (s, calls)) f = Inr (s', calls @ calls')"
  by (simp_all add: andThen_def)

lemma settled_andThen:
  "settled (andThen (Inr (s, calls)) f) = (fst (settled (f s)), calls @ snd (settled (f s)))"
  by (simp add: andThen_def settled_def split: sum.splits prod.splits)

lemma perfectScoreBonus_skipped:
  assumes "\<not> perfectScore P s0 (the (currentSubject P s0))"
  shows "perfectScoreBonus P env s0 s = Inr (s, [])"
  using assms by (auto simp: perfectScoreBonus_def perfectScore_def tasksLength_three Let_def)

lemma perfectScoreBonus_rejected:
  assumes "perfectScore P s0 (the (currentSubject P s0))" "addCoinsReply env = Inl u"
  shows "perfectScoreBonus P env s0 s =
     Inl (s\<lparr>awardedBonuses :=
              insert (perfectScoreBonusKey (the (currentSubject P s0))) (awardedBonuses s)\<rparr>,
          [AddCoins (ForPerfectScore (the (currentSubject P s0))) (the (username P)) 20])"
  using assms by (auto simp: perfectScoreBonus_def perfectScore_def tasksLength_three Let_def)

lemma perfectScoreBonus_granted:
  assumes "perfectScore P s0 (the (currentSubject P s0))" "addCoinsReply env = Inr newCoins"
  shows "perfectScoreBonus P env s0 s =
     Inr (s\<lparr>awardedBonuses :=
              insert (perfectScoreBonusKey (the (currentSubject P s0))) (awardedBonuses s),
            totalCoinsEarned := totalCoinsEarned s + 20\<rparr>,
          AddCoins (ForPerfectScore (the (currentSubject P s0))) (the (username P)) 20
          # (if hasOnCoinsUpdated P then [OnCoinsUpdated newCoins] else []))"
  using assms by (auto simp: perfectScoreBonus_def perfectScore_def tasksLength_three Let_def)


lemma subjectCompleted_rejected:
  assumes "truthy (currentSubject P s0)" "truthy (username P)" "markReply env = Inl u"
  shows "subjectCompleted P env s0 s =
     Inl (s, [MarkSubjectCompleted (the (username P)) (the (currentSubject P s0))])"
  using assms by (simp add: subjectCompleted_def Let_def)

lemma subjectCompleted_marked:
  assumes "truthy (currentSubject P s0)" "truthy (username P)" "markReply env = Inr u"
  shows "subjectCompleted P env s0 s =
     andThen (Inr (s, [MarkSubjectCompleted (the (username P)) (the (currentSubject P s0))]))
       (perfectScoreBonus P env s0)"
  using assms by (simp add: subjectCompleted_def Let_def)

text \<open>
  Whatever the ledger answers, a part of the last branch leaves the position as it is
  unless it runs to its end, and then only \<^verbatim>\<open>nextSubjectOrCompletion\<close> moves it.
\<close>

lemma perfectScoreBonus_pos:
  "pos (fst (settled (perfectScoreBonus P env s0 s))) = pos s"
  by (simp add: perfectScoreBonus_def pos_def Let_def settled_def split: sum.splits)

lemma subjectCompleted_pos:
  "pos (fst (settled (subjectCompleted P env s0 s))) = pos s"
  by (simp add: subjectCompleted_def perfectScoreBonus_def andThen_def pos_def Let_def settled_def
      split: sum.splits)

lemma nextSubject_pos:
  "nextSubjectOrCompletion P env s0 s = Inr (s', calls) \<Longrightarrow>
     pos s' =
       (if moreSubjectsRemain P s0 then (Theory1, currentSubjectIndex s0 + 1, 0, None)
        else (Completion, currentSubjectIndex s, currentTaskIndex s, selectedAnswer s))"
  by (auto simp: nextSubjectOrCompletion_def moreSubjects_iff pos_def Let_def
      split: sum.splits if_splits)

lemma nextSubject_aborted:
  "nextSubjectOrCompletion P env s0 s = Inl (s', calls) \<Longrightarrow> s' = s"
  by (auto simp: nextSubjectOrCompletion_def Let_def split: sum.splits if_splits)

lemma handleNext_last:
  assumes "currentPage s = Explanation" "\<not> moreTasksRemain P s"
  shows "handleNext P env s =
     settled (andThen (subjectCompleted P env s s) (nextSubjectOrCompletion P env s))"
  using assms by (simp add: handleNext_def moreTasks_iff)

text \<open>
  The two ways the last branch can end: in \<^verbatim>\<open>subjectCompleted\<close>, on a rejection,
  or in \<^verbatim>\<open>nextSubjectOrCompletion\<close>, on a rejection or at its end.
\<close>

lemma handleNext_last_cases:
  assumes "currentPage s = Explanation" "\<not> moreTasksRemain P s"
  obtains (stopped) "handleNext P env s = settled (subjectCompleted P env s s)"
  | (went_on) "handleNext P env s =
      (fst (settled (nextSubjectOrCompletion P env s
                       (fst (settled (subjectCompleted P env s s))))),
       snd (settled (subjectCompleted P env s s))
       @ snd (settled (nextSubjectOrCompletion P env s
                         (fst (settled (subjectCompleted P env s s))))))"
proof (cases "subjectCompleted P env s s")
  case (Inl x)
  hence "handleNext P env s = settled (subjectCompleted P env s s)"
    by (simp add: handleNext_last [OF assms] andThen_simps)
  thus ?thesis by (rule stopped)
next
  case (Inr x)
  hence "handleNext P env s =
      (fst (settled (nextSubjectOrCompletion P env s
                       (fst (settled (subjectCompleted P env s s))))),
       snd (settled (subjectCompleted P env s s))
       @ snd (settled (nextSubjectOrCompletion P env s
                         (fst (settled (subjectCompleted P env s s))))))"
    by (simp add: handleNext_last [OF assms] andThen_def settled_def split: sum.splits prod.splits)
  thus ?thesis by (rule went_on)
qed

lemma aborted_pos:
  assumes "currentPage s = Explanation" "\<not> moreTasksRemain P s" "aborted P env s"
  shows "pos (fst (handleNext P env s)) = pos s"
proof (cases "subjectCompleted P env s s")
  case (Inl x)
  have "pos (fst (settled (subjectCompleted P env s s))) = pos s" by (rule subjectCompleted_pos)
  thus ?thesis by (simp add: handleNext_last [OF assms(1,2)] Inl andThen_simps settled_simps)
next
  case (Inr x)
  obtain s1 calls1 where x: "x = (s1, calls1)" by (cases x)
  have p1: "pos s1 = pos s"
    using subjectCompleted_pos [of P env s s] by (simp add: Inr x settled_simps)
  show ?thesis
  proof (cases "nextSubjectOrCompletion P env s s1")
    case (Inl y)
    obtain s2 calls2 where y: "y = (s2, calls2)" by (cases y)
    have "s2 = s1" using Inl y by (auto dest: nextSubject_aborted)
    thus ?thesis
      using p1 Inl y
      by (simp add: handleNext_last [OF assms(1,2)] Inr x andThen_def settled_simps)
  next
    case next_done: (Inr y)
    have "\<not> aborted P env s"
      by (simp add: aborted_def Inr x next_done andThen_def split: prod.splits)
    thus ?thesis using assms(3) by simp
  qed
qed

lemma completed_pos:
  assumes "currentPage s = Explanation" "\<not> moreTasksRemain P s" "\<not> aborted P env s"
  shows "pos (fst (handleNext P env s)) =
     (if moreSubjectsRemain P s then (Theory1, currentSubjectIndex s + 1, 0, None)
      else (Completion, currentSubjectIndex s, currentTaskIndex s, selectedAnswer s))"
proof (cases "subjectCompleted P env s s")
  case (Inl x)
  hence "aborted P env s" by (simp add: aborted_def andThen_simps)
  thus ?thesis using assms(3) by simp
next
  case (Inr x)
  obtain s1 calls1 where x: "x = (s1, calls1)" by (cases x)
  have p1: "pos s1 = pos s"
    using subjectCompleted_pos [of P env s s] by (simp add: Inr x settled_simps)
  show ?thesis
  proof (cases "nextSubjectOrCompletion P env s s1")
    case (Inl y)
    hence "aborted P env s" by (simp add: aborted_def Inr x andThen_def split: prod.splits)
    thus ?thesis using assms(3) by simp
  next
    case next_done: (Inr y)
    obtain s2 calls2 where y: "y = (s2, calls2)" by (cases y)
    have "pos s2 =
       (if moreSubjectsRemain P s then (Theory1, currentSubjectIndex s + 1, 0, None)
        else (Completion, currentSubjectIndex s1, currentTaskIndex s1, selectedAnswer s1))"
      using next_done y by (auto dest: nextSubject_pos)
    moreover have "fst (handleNext P env s) = s2"
      by (simp add: handleNext_last [OF assms(1,2)] Inr x next_done y andThen_def settled_simps)
    ultimately show ?thesis using p1 by (simp add: pos_def)
  qed
qed

text \<open>
  The forward table. Its first three rows hold whatever the ledger answers. From the
  last explanation of a subject the handler moves on to the next subject or to
  completion when it runs to its end, and leaves the position as it is when an awaited
  call rejects.
\<close>

lemma handleNext_table:
  "(currentPage s = Theory1 \<longrightarrow> handleNext P env s = (s\<lparr>currentPage := Theory2\<rparr>, []))
   \<and> (currentPage s = Theory2 \<longrightarrow>
        handleNext P env s =
          (s\<lparr>currentTaskIndex := 0, selectedAnswer := None, currentPage := Task\<rparr>, []))
   \<and> (currentPage s = Explanation \<and> moreTasksRemain P s \<longrightarrow>
        handleNext P env s =
          (s\<lparr>currentTaskIndex := currentTaskIndex s + 1, selectedAnswer := None,
             currentPage := Task\<rparr>, []))
   \<and> (currentPage s = Explanation \<and> \<not> moreTasksRemain P s \<and> moreSubjectsRemain P s
        \<and> \<not> aborted P env s \<longrightarrow>
        pos (fst (handleNext P env s)) = (Theory1, currentSubjectIndex s + 1, 0, None))
   \<and> (currentPage s = Explanation \<and> \<not> moreTasksRemain P s \<and> \<not> moreSubjectsRemain P s
        \<and> \<not> aborted P env s \<longrightarrow>
        currentPage (fst (handleNext P env s)) = Completion)
   \<and> (currentPage s = Explanation \<and> \<not> moreTasksRemain P s \<and> aborted P env s \<longrightarrow>
        pos (fst (handleNext P env s)) = pos s)"
  apply (intro conjI impI)
       apply (simp add: handleNext_def)
      apply (simp add: handleNext_def)
     apply (simp add: handleNext_def moreTasks_iff)
    apply (simp add: completed_pos)
  subgoal using completed_pos [of s P env] by (simp add: pos_def)
  apply (simp add: aborted_pos)
  done


text \<open>
  Claim C3: \<^verbatim>\<open>handleNext\<close> and the forward table. From theory1, from theory2 and from
  an explanation with more tasks in the subject the handler follows the table (lemma
  \<open>handleNext_table\<close>). From the last explanation of a subject it awaits the Reward Ledger
  outside any \<^verbatim>\<open>try\<close> block, and a rejected call ends it before the page is set. In
  the session of \<open>juris\<close>, on the last explanation of Math with its three tasks answered
  correctly, no task and one more subject remain, so the table demands theory1 of the
  second subject; when the bonus call \<^verbatim>\<open>addCoins(username, 20)\<close> rejects, the handler
  leaves the session on that explanation, with the bonus recorded in
  \<^verbatim>\<open>awardedBonuses\<close> and no coins added. On the last explanation of Art neither a
  task nor a subject remains, so the table demands completion; when
  \<^verbatim>\<open>areAllDailyTasksCompleted\<close> rejects, the session stays on that explanation.
\<close>

theorem advance_aborted:
  "currentPage (after mathPerfect) = Explanation
   \<and> \<not> moreTasksRemain propsTwo (after mathPerfect)
   \<and> moreSubjectsRemain propsTwo (after mathPerfect)
   \<and> pos (after mathPerfect) = (Explanation, 0, 2, Some 2)
   \<and> pos (fst (handleNext propsTwo addCoinsRejected (after mathPerfect)))
       = (Explanation, 0, 2, Some 2)
   \<and> snd (handleNext propsTwo addCoinsRejected (after mathPerfect))
       = [MarkSubjectCompleted ''juris'' ''Math'',
          AddCoins (ForPerfectScore ''Math'') ''juris'' 20]
   \<and> awardedBonuses (fst (handleNext propsTwo addCoinsRejected (after mathPerfect)))
       = {''perfect-Math''}
   \<and> totalCoinsEarned (fst (handleNext propsTwo addCoinsRejected (after mathPerfect)))
       = totalCoinsEarned (after mathPerfect)
   \<and> currentPage (after artPerfect) = Explanation
   \<and> \<not> moreTasksRemain propsTwo (after artPerfect)
   \<and> \<not> moreSubjectsRemain propsTwo (after artPerfect)
   \<and> currentPage (fst (handleNext propsTwo completionCheckRejected (after artPerfect)))
       = Explanation"
  by (intro conjI; code_simp)

section \<open>Answer submission\<close>

lemma awardCoins_state:
  "fst (awardCoins P added c k s) =
     (if pays P s k
      then s\<lparr>totalCoinsEarned := totalCoinsEarned s + (if c then 10 else 5),
             awardedQuestions := insert k (awardedQuestions s)\<rparr>
      else s)"
  by (simp add: awardCoins_def pays_def Let_def split: sum.splits)

lemma awardCoins_coinCalls:
  "coinCalls (snd (awardCoins P added c k s)) =
     (if pays P s k then [AddCoins (ForQuestion k) (the (username P)) (if c then 10 else 5)]
      else [])"
  by (simp add: awardCoins_def pays_def coinCalls_def Let_def split: sum.splits)

lemma currentTask_Some_subject:
  "currentTask P s = Some t \<Longrightarrow> truthy (currentSubject P s)"
  by (auto simp: currentTask_def currentReminder_def truthy_def split: option.splits if_splits)

lemma offered_option:
  "offered P s (OptionButton i) \<longleftrightarrow>
     screen_of P s = SessionScreen \<and> currentPage s = Task \<and> selectedAnswer s = None
     \<and> (\<exists>t. currentTask P s = Some t \<and> i < length (options t))"
  by (auto simp: offered_def split: screen.splits option.splits)

lemma pressOption_ignored:
  "\<not> (currentPage s = Task \<and> selectedAnswer s = None) \<Longrightarrow> pressOption P added i s = (s, [])"
  by (auto simp: pressOption_def offered_option)

text \<open>The state and the calls of an accepted \<^verbatim>\<open>handleAnswerSelect\<close>, field by field.\<close>

lemma handleAnswerSelect_accepted:
  assumes "selectedAnswer s = None" "currentTask P s = Some t" "currentSubject P s = Some subj"
  shows "handleAnswerSelect P added a s =
     (let key = questionKey subj (currentTaskIndex s) (question t);
          correct = (a = correctAnswer t);
          paid = pays P s key
      in (s\<lparr>selectedAnswer := Some a,
            totalCoinsEarned :=
              totalCoinsEarned s + (if paid then (if correct then 10 else 5) else 0),
            awardedQuestions :=
              (if paid then insert key (awardedQuestions s) else awardedQuestions s),
            correctAnswers := correctAnswers s + (if correct then 1 else 0),
            totalQuestions := totalQuestions s + 1,
            subjectCorrectAnswers :=
              (if correct
               then (subjectCorrectAnswers s)(subj \<mapsto> get_or_0 (subjectCorrectAnswers s) subj + 1)
               else subjectCorrectAnswers s),
            subjectTotalQuestions :=
              (subjectTotalQuestions s)(subj \<mapsto> get_or_0 (subjectTotalQuestions s) subj + 1),
            currentPage := Explanation\<rparr>,
          snd (awardCoins P added correct key (s\<lparr>selectedAnswer := Some a\<rparr>))))"
proof -
  have tr: "truthy (currentSubject P s)" using assms(2) by (rule currentTask_Some_subject)
  obtain s2 cs where aw: "awardCoins P added (a = correctAnswer t)
      (questionKey subj (currentTaskIndex s) (question t)) (s\<lparr>selectedAnswer := Some a\<rparr>) = (s2, cs)"
    by (cases "awardCoins P added (a = correctAnswer t)
      (questionKey subj (currentTaskIndex s) (question t)) (s\<lparr>selectedAnswer := Some a\<rparr>)")
  have s2: "s2 = (if pays P s (questionKey subj (currentTaskIndex s) (question t))
      then s\<lparr>selectedAnswer := Some a,
             totalCoinsEarned := totalCoinsEarned s + (if a = correctAnswer t then 10 else 5),
             awardedQuestions :=
               insert (questionKey subj (currentTaskIndex s) (question t)) (awardedQuestions s)\<rparr>
      else s\<lparr>selectedAnswer := Some a\<rparr>)"
    using awardCoins_state [of P added "a = correctAnswer t"
       "questionKey subj (currentTaskIndex s) (question t)" "s\<lparr>selectedAnswer := Some a\<rparr>"] aw
    by (simp add: pays_def)
  show ?thesis
    using assms tr aw by (simp add: handleAnswerSelect_def Let_def s2)
qed

text \<open>
  Claim C2, as stated, fails: a submission that is accepted does not always award
  coins. After the first task was answered correctly (10 coins) and the user went back
  to it, a second correct answer is accepted, counted and leads to the explanation, and
  no coins are awarded for it.
\<close>

theorem answer_submission_counterexample:
  "screen_of propsTwo (after backAtFirstTask) = SessionScreen
   \<and> currentPage (after backAtFirstTask) = Task
   \<and> selectedAnswer (after backAtFirstTask) = None
   \<and> currentTask propsTwo (after backAtFirstTask) = Some (quizTask ''q1'' 1)
   \<and> currentPage (fst (pressOption propsTwo (Inr 20) 1 (after backAtFirstTask))) = Explanation
   \<and> totalQuestions (fst (pressOption propsTwo (Inr 20) 1 (after backAtFirstTask)))
       = totalQuestions (after backAtFirstTask) + 1
   \<and> totalCoinsEarned (fst (pressOption propsTwo (Inr 20) 1 (after backAtFirstTask)))
       \<noteq> totalCoinsEarned (after backAtFirstTask) + 10
   \<and> coinCalls (snd (pressOption propsTwo (Inr 20) 1 (after backAtFirstTask))) = []"
  by code_simp

text \<open>
  Claim C2, amended: answer submission is accepted only on the task page when no answer
  is recorded for the current task, and is ignored otherwise, the state unchanged (the
  handler itself returns at once when an answer is recorded). When
  it is accepted with option index \<open>i\<close> it records \<open>i\<close> as the selected answer,
  computes correctness as \<open>i\<close> equal to the task's correct-option index, awards 10
  coins if correct and 5 if incorrect provided a user name is present and the key of the
  question has not been awarded in this session, and awards nothing otherwise, increments
  the global and the per-subject total counters, the correct counters only when correct,
  and goes to the explanation page.
\<close>

theorem answer_submission:
  "(\<not> (currentPage s = Task \<and> selectedAnswer s = None) \<longrightarrow> pressOption P added i s = (s, []))
   \<and> (selectedAnswer s \<noteq> None \<longrightarrow> handleAnswerSelect P added a s = (s, []))
   \<and> (screen_of P s = SessionScreen \<and> currentPage s = Task \<and> selectedAnswer s = None
       \<and> currentTask P s = Some t \<and> i < length (options t) \<and> currentSubject P s = Some subj \<longrightarrow>
       (let s' = fst (pressOption P added i s);
            calls = snd (pressOption P added i s);
            correct = (int i = correctAnswer t);
            amount = (if correct then 10 else 5);
            key = questionKey subj (currentTaskIndex s) (question t);
            paid = pays P s key
        in selectedAnswer s' = Some (int i)
           \<and> totalCoinsEarned s' = totalCoinsEarned s + (if paid then amount else 0)
           \<and> coinCalls calls =
               (if paid then [AddCoins (ForQuestion key) (the (username P)) amount] else [])
           \<and> correctAnswers s' = correctAnswers s + (if correct then 1 else 0)
           \<and> totalQuestions s' = totalQuestions s + 1
           \<and> get_or_0 (subjectCorrectAnswers s') subj =
               get_or_0 (subjectCorrectAnswers s) subj + (if correct then 1 else 0)
           \<and> get_or_0 (subjectTotalQuestions s') subj =
               get_or_0 (subjectTotalQuestions s) subj + 1
           \<and> currentPage s' = Explanation))"
proof (intro conjI impI)
  assume "\<not> (currentPage s = Task \<and> selectedAnswer s = None)"
  then show "pressOption P added i s = (s, [])" by (rule pressOption_ignored)
next
  assume "selectedAnswer s \<noteq> None"
  then show "handleAnswerSelect P added a s = (s, [])" by (simp add: handleAnswerSelect_def)
next
  assume a: "screen_of P s = SessionScreen \<and> currentPage s = Task \<and> selectedAnswer s = None
       \<and> currentTask P s = Some t \<and> i < length (options t) \<and> currentSubject P s = Some subj"
  then have off: "offered P s (OptionButton i)" by (simp add: offered_option)
  have acc: "pressOption P added i s = handleAnswerSelect P added (int i) s"
    using off by (simp add: pressOption_def)
  note h = handleAnswerSelect_accepted [of s P t subj added "int i"]
  show "let s' = fst (pressOption P added i s);
            calls = snd (pressOption P added i s);
            correct = (int i = correctAnswer t);
            amount = (if correct then 10 else 5);
            key = questionKey subj (currentTaskIndex s) (question t);
            paid = pays P s key
        in selectedAnswer s' = Some (int i)
           \<and> totalCoinsEarned s' = totalCoinsEarned s + (if paid then amount else 0)
           \<and> coinCalls calls =
               (if paid then [AddCoins (ForQuestion key) (the (username P)) amount] else [])
           \<and> correctAnswers s' = correctAnswers s + (if correct then 1 else 0)
           \<and> totalQuestions s' = totalQuestions s + 1
           \<and> get_or_0 (subjectCorrectAnswers s') subj =
               get_or_0 (subjectCorrectAnswers s) subj + (if correct then 1 else 0)
           \<and> get_or_0 (subjectTotalQuestions s') subj =
               get_or_0 (subjectTotalQuestions s) subj + 1
           \<and> currentPage s' = Explanation"
    using a by (simp add: acc h Let_def awardCoins_coinCalls pays_def get_or_0_def)
qed

text \<open>
  The first task answered correctly for the first time, and a press on an answered task.
\<close>

theorem answer_submission_witness:
  "screen_of propsTwo (after toFirstTask) = SessionScreen
   \<and> currentPage (after toFirstTask) = Task \<and> selectedAnswer (after toFirstTask) = None
   \<and> currentTask propsTwo (after toFirstTask) = Some (quizTask ''q1'' 1)
   \<and> 1 < length (options (quizTask ''q1'' 1))
   \<and> currentSubject propsTwo (after toFirstTask) = Some ''Math''
   \<and> selectedAnswer (fst (pressOption propsTwo (Inr 10) 1 (after toFirstTask))) = Some 1
   \<and> totalCoinsEarned (fst (pressOption propsTwo (Inr 10) 1 (after toFirstTask))) = 10
   \<and> coinCalls (snd (pressOption propsTwo (Inr 10) 1 (after toFirstTask)))
       = [AddCoins (ForQuestion ''Math-0-q1'') ''juris'' 10]
   \<and> totalQuestions (fst (pressOption propsTwo (Inr 10) 1 (after toFirstTask))) = 1
   \<and> correctAnswers (fst (pressOption propsTwo (Inr 10) 1 (after toFirstTask))) = 1
   \<and> currentPage (fst (pressOption propsTwo (Inr 10) 1 (after toFirstTask))) = Explanation
   \<and> \<not> (currentPage (after firstAnswered) = Task \<and> selectedAnswer (after firstAnswered) = None)
   \<and> pressOption propsTwo (Inr 10) 1 (after firstAnswered) = (after firstAnswered, [])"
proof -
  have h: "screen_of propsTwo (after toFirstTask) = SessionScreen
      \<and> currentPage (after toFirstTask) = Task \<and> selectedAnswer (after toFirstTask) = None
      \<and> currentTask propsTwo (after toFirstTask) = Some (quizTask ''q1'' 1)
      \<and> 1 < length (options (quizTask ''q1'' 1))
      \<and> currentSubject propsTwo (after toFirstTask) = Some ''Math''"
    by code_simp
  have v: "totalCoinsEarned (after toFirstTask) = 0" "totalQuestions (after toFirstTask) = 0"
    "correctAnswers (after toFirstTask) = 0" "currentTaskIndex (after toFirstTask) = 0"
    "pays propsTwo (after toFirstTask) ''Math-0-q1''"
    "questionKey ''Math'' 0 ''q1'' = ''Math-0-q1''"
    "correctAnswer (quizTask ''q1'' 1) = 1" "question (quizTask ''q1'' 1) = ''q1''"
    "the (username propsTwo) = ''juris''"
    by code_simp+
  have g: "\<not> (currentPage (after firstAnswered) = Task \<and> selectedAnswer (after firstAnswered) = None)"
    by code_simp
  have c1: "pressOption propsTwo (Inr 10) 1 (after firstAnswered) = (after firstAnswered, [])"
    using answer_submission [of "after firstAnswered" propsTwo "Inr 10" 1, THEN conjunct1] g
    by (rule mp)
  have c2: "selectedAnswer (fst (pressOption propsTwo (Inr 10) 1 (after toFirstTask))) = Some 1
   \<and> totalCoinsEarned (fst (pressOption propsTwo (Inr 10) 1 (after toFirstTask))) = 10
   \<and> coinCalls (snd (pressOption propsTwo (Inr 10) 1 (after toFirstTask)))
       = [AddCoins (ForQuestion ''Math-0-q1'') ''juris'' 10]
   \<and> totalQuestions (fst (pressOption propsTwo (Inr 10) 1 (after toFirstTask))) = 1
   \<and> correctAnswers (fst (pressOption propsTwo (Inr 10) 1 (after toFirstTask))) = 1
   \<and> currentPage (fst (pressOption propsTwo (Inr 10) 1 (after toFirstTask))) = Explanation"
    using answer_submission [of "after toFirstTask" propsTwo "Inr 10" 1 1 "quizTask ''q1'' 1" "''Math''",
        THEN conjunct2, THEN conjunct2, rule_format, OF h]
    by (simp add: Let_def v)
  show ?thesis using h g c1 c2 by (simp only: simp_thms)
qed

section \<open>A failed award and a repeated answer\<close>

lemma awardCoins_state_same:
  "fst (awardCoins P (Inl u) c k s) = fst (awardCoins P (Inr n) c k s)"
  by (simp add: awardCoins_state)

lemma awardCoins_rejected_calls:
  "pays P s k \<Longrightarrow>
     snd (awardCoins P (Inl u) c k s) =
       [AddCoins (ForQuestion k) (the (username P)) (if c then 10 else 5),
        ConsoleError ''Error awarding coins:'']"
  by (simp add: awardCoins_def pays_def Let_def)

lemma screen_of_cong:
  "isLoading s' = isLoading s \<Longrightarrow> error s' = error s \<Longrightarrow> reminders s' = reminders s \<Longrightarrow>
   currentSubjectIndex s' = currentSubjectIndex s \<Longrightarrow> screen_of P s' = screen_of P s"
proof -
  assume a: "isLoading s' = isLoading s" "error s' = error s" "reminders s' = reminders s"
    "currentSubjectIndex s' = currentSubjectIndex s"
  have "currentReminder P s' = currentReminder P s"
    by (simp only: currentReminder_def currentSubject_def a)
  then show ?thesis by (simp only: screen_of_def a)
qed

text \<open>
  Claim C9: when the \<^verbatim>\<open>addCoins\<close> call of an accepted answer submission fails, the
  failure is logged and nothing else: the session's coin counter keeps the increment
  made before the call, the state is the one a successful call leaves, no alert is
  raised, no error is set, and the session shows the explanation.
\<close>

theorem award_failure:
  "screen_of P s = SessionScreen \<and> currentPage s = Task \<and> selectedAnswer s = None
   \<and> currentTask P s = Some t \<and> i < length (options t) \<and> currentSubject P s = Some subj
   \<and> pays P s (questionKey subj (currentTaskIndex s) (question t)) \<longrightarrow>
   (let s' = fst (pressOption P (Inl ()) i s);
        calls = snd (pressOption P (Inl ()) i s);
        amount = (if int i = correctAnswer t then 10 else 5)
    in fst (pressOption P (Inr newCoins) i s) = s'
       \<and> totalCoinsEarned s' = totalCoinsEarned s + amount
       \<and> calls = [AddCoins (ForQuestion (questionKey subj (currentTaskIndex s) (question t)))
                    (the (username P)) amount,
                  ConsoleError ''Error awarding coins:'']
       \<and> error s' = error s
       \<and> screen_of P s' = SessionScreen
       \<and> currentPage s' = Explanation)"
proof (intro impI)
  assume a: "screen_of P s = SessionScreen \<and> currentPage s = Task \<and> selectedAnswer s = None
   \<and> currentTask P s = Some t \<and> i < length (options t) \<and> currentSubject P s = Some subj
   \<and> pays P s (questionKey subj (currentTaskIndex s) (question t))"
  then have off: "offered P s (OptionButton i)" by (simp add: offered_option)
  have acc: "pressOption P added i s = handleAnswerSelect P added (int i) s" for added
    using off by (simp add: pressOption_def)
  have sel: "selectedAnswer s = None" and ct: "currentTask P s = Some t"
    and cs: "currentSubject P s = Some subj"
    and py: "pays P s (questionKey subj (currentTaskIndex s) (question t))"
    using a by simp_all
  note h = handleAnswerSelect_accepted [OF sel ct cs]
  have py': "pays P (s\<lparr>selectedAnswer := Some (int i)\<rparr>)
      (questionKey subj (currentTaskIndex s) (question t))"
    using py by (simp add: pays_def)
  have scr: "screen_of P (fst (handleAnswerSelect P (Inl ()) (int i) s)) = screen_of P s"
    by (rule screen_of_cong) (simp_all add: h Let_def)
  show "let s' = fst (pressOption P (Inl ()) i s);
        calls = snd (pressOption P (Inl ()) i s);
        amount = (if int i = correctAnswer t then 10 else 5)
    in fst (pressOption P (Inr newCoins) i s) = s'
       \<and> totalCoinsEarned s' = totalCoinsEarned s + amount
       \<and> calls = [AddCoins (ForQuestion (questionKey subj (currentTaskIndex s) (question t)))
                    (the (username P)) amount,
                  ConsoleError ''Error awarding coins:'']
       \<and> error s' = error s
       \<and> screen_of P s' = SessionScreen
       \<and> currentPage s' = Explanation"
    unfolding Let_def acc
    apply (intro conjI)
         apply (simp add: h Let_def)
        apply (simp add: h Let_def py)
       apply (simp add: h Let_def awardCoins_rejected_calls [OF py'])
      apply (simp add: h Let_def)
     apply (simp add: scr a)
    apply (simp add: h Let_def)
    done
qed

text \<open>
  The first task answered correctly while the ledger call fails.
\<close>

theorem award_failure_witness:
  "screen_of propsTwo (after toFirstTask) = SessionScreen
   \<and> currentPage (after toFirstTask) = Task \<and> selectedAnswer (after toFirstTask) = None
   \<and> currentTask propsTwo (after toFirstTask) = Some (quizTask ''q1'' 1)
   \<and> 1 < length (options (quizTask ''q1'' 1))
   \<and> currentSubject propsTwo (after toFirstTask) = Some ''Math''
   \<and> pays propsTwo (after toFirstTask)
       (questionKey ''Math'' (currentTaskIndex (after toFirstTask)) (question (quizTask ''q1'' 1)))
   \<and> fst (pressOption propsTwo (Inr 10) 1 (after toFirstTask))
       = fst (pressOption propsTwo (Inl ()) 1 (after toFirstTask))
   \<and> totalCoinsEarned (fst (pressOption propsTwo (Inl ()) 1 (after toFirstTask))) = 10
   \<and> snd (pressOption propsTwo (Inl ()) 1 (after toFirstTask))
       = [AddCoins (ForQuestion ''Math-0-q1'') ''juris'' 10, ConsoleError ''Error awarding coins:'']
   \<and> error (fst (pressOption propsTwo (Inl ()) 1 (after toFirstTask))) = None
   \<and> screen_of propsTwo (fst (pressOption propsTwo (Inl ()) 1 (after toFirstTask))) = SessionScreen
   \<and> currentPage (fst (pressOption propsTwo (Inl ()) 1 (after toFirstTask))) = Explanation"
proof -
  have h: "screen_of propsTwo (after toFirstTask) = SessionScreen
      \<and> currentPage (after toFirstTask) = Task \<and> selectedAnswer (after toFirstTask) = None
      \<and> currentTask propsTwo (after toFirstTask) = Some (quizTask ''q1'' 1)
      \<and> 1 < length (options (quizTask ''q1'' 1))
      \<and> currentSubject propsTwo (after toFirstTask) = Some ''Math''
      \<and> pays propsTwo (after toFirstTask)
          (questionKey ''Math'' (currentTaskIndex (after toFirstTask)) (question (quizTask ''q1'' 1)))"
    by code_simp
  have v: "totalCoinsEarned (after toFirstTask) = 0" "currentTaskIndex (after toFirstTask) = 0"
    "questionKey ''Math'' 0 ''q1'' = ''Math-0-q1''" "error (after toFirstTask) = None"
    "correctAnswer (quizTask ''q1'' 1) = 1" "question (quizTask ''q1'' 1) = ''q1''"
    "the (username propsTwo) = ''juris''"
    by code_simp+
  have c: "fst (pressOption propsTwo (Inr 10) 1 (after toFirstTask))
       = fst (pressOption propsTwo (Inl ()) 1 (after toFirstTask))
   \<and> totalCoinsEarned (fst (pressOption propsTwo (Inl ()) 1 (after toFirstTask))) = 10
   \<and> snd (pressOption propsTwo (Inl ()) 1 (after toFirstTask))
       = [AddCoins (ForQuestion ''Math-0-q1'') ''juris'' 10, ConsoleError ''Error awarding coins:'']
   \<and> error (fst (pressOption propsTwo (Inl ()) 1 (after toFirstTask))) = None
   \<and> screen_of propsTwo (fst (pressOption propsTwo (Inl ()) 1 (after toFirstTask))) = SessionScreen
   \<and> currentPage (fst (pressOption propsTwo (Inl ()) 1 (after toFirstTask))) = Explanation"
    using award_failure [of propsTwo "after toFirstTask" "quizTask ''q1'' 1" 1 "''Math''" 10,
        rule_format, OF h]
    by (simp add: Let_def v)
  show ?thesis using h c by iprover
qed

lemma currentTask_cong:
  assumes "reminders s' = reminders s" "currentSubjectIndex s' = currentSubjectIndex s"
    "currentTaskIndex s' = currentTaskIndex s"
  shows "currentTask P s' = currentTask P s \<and> currentSubject P s' = currentSubject P s"
  by (simp only: currentTask_def currentReminder_def currentSubject_def assms simp_thms)

lemma pressOption_accepted:
  assumes "screen_of P s = SessionScreen" "currentPage s = Task" "selectedAnswer s = None"
    "currentTask P s = Some t" "i < length (options t)"
  shows "pressOption P added i s = handleAnswerSelect P added (int i) s"
  using assms by (simp add: pressOption_def offered_option)

lemma pressBack_from_explanation:
  assumes "screen_of P s = SessionScreen" "currentPage s = Explanation"
  shows "pressBack P s = (s\<lparr>currentPage := Task, selectedAnswer := None\<rparr>, [])"
  using assms by (simp add: pressBack_def offered_def handleBack_def)

lemma perfectScoreBonus_without_three:
  "get_or_0 (subjectTotalQuestions s0) (the (currentSubject P s0)) \<noteq> 3 \<Longrightarrow>
   perfectScoreBonus P env s0 s = Inr (s, [])"
  by (simp add: perfectScoreBonus_skipped perfectScore_def)

lemma subjectCompleted_without_three:
  "get_or_0 (subjectTotalQuestions s0) (the (currentSubject P s0)) \<noteq> 3 \<Longrightarrow>
   coinCalls (snd (settled (subjectCompleted P env s0 s))) = []
   \<and> totalCoinsEarned (fst (settled (subjectCompleted P env s0 s))) = totalCoinsEarned s"
  by (simp add: subjectCompleted_def perfectScoreBonus_without_three andThen_def settled_def
      Let_def coinCalls_def split: sum.splits)

lemma nextSubject_no_coins:
  "coinCalls (snd (settled (nextSubjectOrCompletion P env s0 s))) = []
   \<and> totalCoinsEarned (fst (settled (nextSubjectOrCompletion P env s0 s))) = totalCoinsEarned s"
  by (simp add: nextSubjectOrCompletion_def settled_def Let_def coinCalls_def split: sum.splits)

lemma coinCalls_append: "coinCalls (xs @ ys) = coinCalls xs @ coinCalls ys"
  by (simp add: coinCalls_def)

lemma handleNext_without_three:
  assumes "get_or_0 (subjectTotalQuestions s) (the (currentSubject P s)) \<noteq> 3"
  shows "coinCalls (snd (handleNext P env s)) = []
     \<and> totalCoinsEarned (fst (handleNext P env s)) = totalCoinsEarned s"
proof (cases "currentPage s = Explanation \<and> \<not> moreTasksRemain P s")
  case True
  hence last: "currentPage s = Explanation" "\<not> moreTasksRemain P s" by simp_all
  from last show ?thesis
  proof (cases rule: handleNext_last_cases [where env = env])
    case stopped
    thus ?thesis using subjectCompleted_without_three [OF assms, of env s] by simp
  next
    case went_on
    thus ?thesis
      using subjectCompleted_without_three [OF assms, of env s]
        nextSubject_no_coins [of P env s "fst (settled (subjectCompleted P env s s))"]
      by (simp add: coinCalls_append)
  qed
next
  case False
  then show ?thesis
    by (auto simp: handleNext_def moreTasks_iff coinCalls_def)
qed

text \<open>
  Claim C10: going back from an explanation to its task clears the recorded answer,
  so the task can be answered again: the second submission is accepted and counted, in
  the global and in the per-subject counters, and awards no coins, whatever the first
  one awarded. A per-subject total other than 3 then leaves the subject without the
  perfect-score bonus.
\<close>

theorem repeated_answer:
  "(screen_of P s = SessionScreen \<and> currentPage s = Task \<and> selectedAnswer s = None
    \<and> currentTask P s = Some t \<and> i < length (options t) \<and> j < length (options t)
    \<and> currentSubject P s = Some subj \<longrightarrow>
    (let s1 = fst (pressOption P added1 i s);
         s2 = fst (pressBack P s1);
         s3 = fst (pressOption P added2 j s2);
         calls3 = snd (pressOption P added2 j s2)
     in currentPage s2 = Task \<and> selectedAnswer s2 = None \<and> offered P s2 (OptionButton j)
        \<and> currentPage s3 = Explanation
        \<and> totalQuestions s3 = totalQuestions s + 2
        \<and> get_or_0 (subjectTotalQuestions s3) subj = get_or_0 (subjectTotalQuestions s) subj + 2
        \<and> correctAnswers s3 =
            correctAnswers s + (if int i = correctAnswer t then 1 else 0)
              + (if int j = correctAnswer t then 1 else 0)
        \<and> get_or_0 (subjectCorrectAnswers s3) subj =
            get_or_0 (subjectCorrectAnswers s) subj + (if int i = correctAnswer t then 1 else 0)
              + (if int j = correctAnswer t then 1 else 0)
        \<and> totalCoinsEarned s3 = totalCoinsEarned s1
        \<and> coinCalls calls3 = []))
   \<and> (get_or_0 (subjectTotalQuestions s) (the (currentSubject P s)) \<noteq> 3 \<longrightarrow>
        coinCalls (snd (handleNext P env s)) = []
        \<and> totalCoinsEarned (fst (handleNext P env s)) = totalCoinsEarned s)"
proof (intro conjI impI)
  assume "get_or_0 (subjectTotalQuestions s) (the (currentSubject P s)) \<noteq> 3"
  then show "coinCalls (snd (handleNext P env s)) = []"
    and "totalCoinsEarned (fst (handleNext P env s)) = totalCoinsEarned s"
    using handleNext_without_three [of s P env] by simp_all
next
  assume a: "screen_of P s = SessionScreen \<and> currentPage s = Task \<and> selectedAnswer s = None
    \<and> currentTask P s = Some t \<and> i < length (options t) \<and> j < length (options t)
    \<and> currentSubject P s = Some subj"
  define key where "key = questionKey subj (currentTaskIndex s) (question t)"
  define s1 where "s1 = fst (pressOption P added1 i s)"
  define s2 where "s2 = fst (pressBack P s1)"
  have sub1: "pressOption P added1 i s = handleAnswerSelect P added1 (int i) s"
    using a by (simp add: pressOption_accepted)
  note h1 = handleAnswerSelect_accepted [of s P t subj added1 "int i"]
  have s1_eq: "s1 = s\<lparr>selectedAnswer := Some (int i),
            totalCoinsEarned :=
              totalCoinsEarned s
              + (if pays P s key then (if int i = correctAnswer t then 10 else 5) else 0),
            awardedQuestions :=
              (if pays P s key then insert key (awardedQuestions s) else awardedQuestions s),
            correctAnswers := correctAnswers s + (if int i = correctAnswer t then 1 else 0),
            totalQuestions := totalQuestions s + 1,
            subjectCorrectAnswers :=
              (if int i = correctAnswer t
               then (subjectCorrectAnswers s)(subj \<mapsto> get_or_0 (subjectCorrectAnswers s) subj + 1)
               else subjectCorrectAnswers s),
            subjectTotalQuestions :=
              (subjectTotalQuestions s)(subj \<mapsto> get_or_0 (subjectTotalQuestions s) subj + 1),
            currentPage := Explanation\<rparr>"
    using a by (simp add: s1_def sub1 h1 Let_def key_def)
  have scr1: "screen_of P s1 = SessionScreen"
    using a screen_of_cong [of s1 s P] by (simp add: s1_eq)
  have s2_eq: "s2 = s1\<lparr>currentPage := Task, selectedAnswer := None\<rparr>"
    using pressBack_from_explanation [OF scr1] by (simp add: s2_def s1_eq)
  have scr2: "screen_of P s2 = SessionScreen"
    using scr1 screen_of_cong [of s2 s1 P] by (simp add: s2_eq)
  have cur2: "currentTask P s2 = Some t \<and> currentSubject P s2 = Some subj"
    using a currentTask_cong [of s2 s P] by (simp add: s2_eq s1_eq)
  have pg2: "currentPage s2 = Task" and sel2: "selectedAnswer s2 = None"
    by (simp_all add: s2_eq)
  have off2: "offered P s2 (OptionButton j)"
    using a scr2 cur2 pg2 sel2 by (simp add: offered_option)
  have idx2: "currentTaskIndex s2 = currentTaskIndex s" by (simp add: s2_eq s1_eq)
  have nopay: "\<not> pays P s2 key"
    by (auto simp: pays_def s2_eq s1_eq)
  have sub2: "pressOption P added2 j s2 = handleAnswerSelect P added2 (int j) s2"
    using off2 by (simp add: pressOption_def)
  note h2 = handleAnswerSelect_accepted [of s2 P t subj added2 "int j", OF sel2 conjunct1 [OF cur2]
      conjunct2 [OF cur2]]
  have calls3: "coinCalls (snd (pressOption P added2 j s2)) = []"
    using nopay by (simp add: sub2 h2 Let_def idx2 key_def [symmetric] awardCoins_coinCalls pays_def)
  have st3: "currentPage (fst (pressOption P added2 j s2)) = Explanation
      \<and> totalQuestions (fst (pressOption P added2 j s2)) = totalQuestions s + 2
      \<and> get_or_0 (subjectTotalQuestions (fst (pressOption P added2 j s2))) subj
          = get_or_0 (subjectTotalQuestions s) subj + 2
      \<and> correctAnswers (fst (pressOption P added2 j s2)) =
            correctAnswers s + (if int i = correctAnswer t then 1 else 0)
              + (if int j = correctAnswer t then 1 else 0)
      \<and> get_or_0 (subjectCorrectAnswers (fst (pressOption P added2 j s2))) subj =
            get_or_0 (subjectCorrectAnswers s) subj + (if int i = correctAnswer t then 1 else 0)
              + (if int j = correctAnswer t then 1 else 0)
      \<and> totalCoinsEarned (fst (pressOption P added2 j s2)) = totalCoinsEarned s1"
    using nopay
    by (simp add: sub2 h2 Let_def idx2 key_def [symmetric])
       (simp add: s2_eq s1_eq get_or_0_def)
  show "let s1 = fst (pressOption P added1 i s);
         s2 = fst (pressBack P s1);
         s3 = fst (pressOption P added2 j s2);
         calls3 = snd (pressOption P added2 j s2)
     in currentPage s2 = Task \<and> selectedAnswer s2 = None \<and> offered P s2 (OptionButton j)
        \<and> currentPage s3 = Explanation
        \<and> totalQuestions s3 = totalQuestions s + 2
        \<and> get_or_0 (subjectTotalQuestions s3) subj = get_or_0 (subjectTotalQuestions s) subj + 2
        \<and> correctAnswers s3 =
            correctAnswers s + (if int i = correctAnswer t then 1 else 0)
              + (if int j = correctAnswer t then 1 else 0)
        \<and> get_or_0 (subjectCorrectAnswers s3) subj =
            get_or_0 (subjectCorrectAnswers s) subj + (if int i = correctAnswer t then 1 else 0)
              + (if int j = correctAnswer t then 1 else 0)
        \<and> totalCoinsEarned s3 = totalCoinsEarned s1
        \<and> coinCalls calls3 = []"
    unfolding Let_def s1_def [symmetric] s2_def [symmetric]
    using pg2 sel2 off2 st3 calls3 by (simp only: simp_thms)
qed

text \<open>
  The first task answered twice; and Math with three tasks, four answers, all correct, left
  without the bonus.
\<close>

theorem repeated_answer_witness:
  "screen_of propsTwo (after toFirstTask) = SessionScreen
   \<and> currentPage (after toFirstTask) = Task \<and> selectedAnswer (after toFirstTask) = None
   \<and> currentTask propsTwo (after toFirstTask) = Some (quizTask ''q1'' 1)
   \<and> 1 < length (options (quizTask ''q1'' 1)) \<and> 1 < length (options (quizTask ''q1'' 1))
   \<and> currentSubject propsTwo (after toFirstTask) = Some ''Math''
   \<and> totalQuestions
        (fst (pressOption propsTwo (Inr 10) 1
           (fst (pressBack propsTwo (fst (pressOption propsTwo (Inr 10) 1 (after toFirstTask))))))) = 2
   \<and> get_or_0 (subjectTotalQuestions
        (fst (pressOption propsTwo (Inr 10) 1
           (fst (pressBack propsTwo (fst (pressOption propsTwo (Inr 10) 1 (after toFirstTask))))))))
        ''Math'' = 2
   \<and> totalCoinsEarned
        (fst (pressOption propsTwo (Inr 10) 1
           (fst (pressBack propsTwo (fst (pressOption propsTwo (Inr 10) 1 (after toFirstTask))))))) = 10
   \<and> coinCalls
        (snd (pressOption propsTwo (Inr 10) 1
           (fst (pressBack propsTwo (fst (pressOption propsTwo (Inr 10) 1 (after toFirstTask))))))) = []
   \<and> tasksLength propsTwo (after mathWithRepeat) = 3
   \<and> get_or_0 (subjectTotalQuestions (after mathWithRepeat)) ''Math'' = 4
   \<and> get_or_0 (subjectCorrectAnswers (after mathWithRepeat)) ''Math'' = 4
   \<and> get_or_0 (subjectTotalQuestions (after mathWithRepeat))
        (the (currentSubject propsTwo (after mathWithRepeat))) \<noteq> 3
   \<and> coinCalls (snd (handleNext propsTwo replies0 (after mathWithRepeat))) = []
   \<and> totalCoinsEarned (fst (handleNext propsTwo replies0 (after mathWithRepeat))) = 30"
proof -
  have h: "screen_of propsTwo (after toFirstTask) = SessionScreen
      \<and> currentPage (after toFirstTask) = Task \<and> selectedAnswer (after toFirstTask) = None
      \<and> currentTask propsTwo (after toFirstTask) = Some (quizTask ''q1'' 1)
      \<and> 1 < length (options (quizTask ''q1'' 1)) \<and> 1 < length (options (quizTask ''q1'' 1))
      \<and> currentSubject propsTwo (after toFirstTask) = Some ''Math''"
    by code_simp
  have v: "totalQuestions (after toFirstTask) = 0"
    "get_or_0 (subjectTotalQuestions (after toFirstTask)) ''Math'' = 0"
    "totalCoinsEarned (fst (pressOption propsTwo (Inr 10) (Suc 0) (after toFirstTask))) = 10"
    by code_simp+
  have w: "tasksLength propsTwo (after mathWithRepeat) = 3"
    "get_or_0 (subjectCorrectAnswers (after mathWithRepeat)) ''Math'' = 4"
    "totalCoinsEarned (after mathWithRepeat) = 30"
    "get_or_0 (subjectTotalQuestions (after mathWithRepeat)) ''Math'' = 4"
    by code_simp+
  have g: "get_or_0 (subjectTotalQuestions (after mathWithRepeat))
        (the (currentSubject propsTwo (after mathWithRepeat))) \<noteq> 3"
    by code_simp
  have c1: "totalQuestions
        (fst (pressOption propsTwo (Inr 10) 1
           (fst (pressBack propsTwo (fst (pressOption propsTwo (Inr 10) 1 (after toFirstTask))))))) = 2
   \<and> get_or_0 (subjectTotalQuestions
        (fst (pressOption propsTwo (Inr 10) 1
           (fst (pressBack propsTwo (fst (pressOption propsTwo (Inr 10) 1 (after toFirstTask))))))))
        ''Math'' = 2
   \<and> totalCoinsEarned
        (fst (pressOption propsTwo (Inr 10) 1
           (fst (pressBack propsTwo (fst (pressOption propsTwo (Inr 10) 1 (after toFirstTask))))))) = 10
   \<and> coinCalls
        (snd (pressOption propsTwo (Inr 10) 1
           (fst (pressBack propsTwo (fst (pressOption propsTwo (Inr 10) 1 (after toFirstTask))))))) = []"
    using repeated_answer [of propsTwo "after toFirstTask" "quizTask ''q1'' 1" 1 1 "''Math''"
        "Inr 10" "Inr 10", THEN conjunct1, rule_format, OF h]
    by (simp add: Let_def v)
  have c2: "coinCalls (snd (handleNext propsTwo replies0 (after mathWithRepeat))) = []
   \<and> totalCoinsEarned (fst (handleNext propsTwo replies0 (after mathWithRepeat))) = 30"
    using repeated_answer [of propsTwo "after mathWithRepeat" _ _ _ _ _ _ replies0,
        THEN conjunct2, rule_format, OF g]
    by (simp add: w)
  show ?thesis using h w(1,2,4) g c1 c2 by iprover
qed

section \<open>Awards are issued at most once\<close>

lemma awardsFrom_coinCalls: "awardsFrom orig calls = awardsFrom orig (coinCalls calls)"
proof -
  have "filter (issuedFrom orig) (filter isAddCoins calls) = filter (issuedFrom orig) calls"
  proof (induction calls)
    case Nil
    show ?case by simp
  next
    case (Cons c cs)
    then show ?case by (cases c) simp_all
  qed
  then show ?thesis by (simp add: awardsFrom_def coinCalls_def)
qed

lemma subjectCompleted_fields:
  "awardedQuestions (fst (settled (subjectCompleted P env s0 s))) = awardedQuestions s
   \<and> (if truthy (currentSubject P s0) \<and> truthy (username P) \<and> \<not> isl (markReply env)
          \<and> perfectScore P s0 (the (currentSubject P s0))
       then coinCalls (snd (settled (subjectCompleted P env s0 s))) =
              [AddCoins (ForPerfectScore (the (currentSubject P s0))) (the (username P)) 20]
            \<and> awardedBonuses (fst (settled (subjectCompleted P env s0 s))) =
                insert (perfectScoreBonusKey (the (currentSubject P s0))) (awardedBonuses s)
       else coinCalls (snd (settled (subjectCompleted P env s0 s))) = []
            \<and> awardedBonuses (fst (settled (subjectCompleted P env s0 s))) = awardedBonuses s)"
proof (cases "perfectScore P s0 (the (currentSubject P s0))")
  case True
  thus ?thesis
    by (auto simp: subjectCompleted_def perfectScoreBonus_def perfectScore_def tasksLength_three
        andThen_def settled_def Let_def coinCalls_def split: sum.splits)
next
  case False
  thus ?thesis
    by (auto simp: subjectCompleted_def perfectScoreBonus_skipped andThen_def settled_def
        Let_def coinCalls_def split: sum.splits)
qed

lemma nextSubject_fields:
  "awardedQuestions (fst (settled (nextSubjectOrCompletion P env s0 s))) = awardedQuestions s
   \<and> awardedBonuses (fst (settled (nextSubjectOrCompletion P env s0 s))) = awardedBonuses s
   \<and> coinCalls (snd (settled (nextSubjectOrCompletion P env s0 s))) = []"
  by (simp add: nextSubjectOrCompletion_def settled_def Let_def coinCalls_def split: sum.splits)

lemma handleNext_awards:
  "awardedQuestions (fst (handleNext P env s)) = awardedQuestions s
   \<and> (if currentPage s = Explanation \<and> \<not> moreTasksRemain P s
          \<and> truthy (currentSubject P s) \<and> truthy (username P) \<and> \<not> isl (markReply env)
          \<and> perfectScore P s (the (currentSubject P s))
       then coinCalls (snd (handleNext P env s)) =
              [AddCoins (ForPerfectScore (the (currentSubject P s))) (the (username P)) 20]
            \<and> awardedBonuses (fst (handleNext P env s)) =
                insert (perfectScoreBonusKey (the (currentSubject P s))) (awardedBonuses s)
       else coinCalls (snd (handleNext P env s)) = []
            \<and> awardedBonuses (fst (handleNext P env s)) = awardedBonuses s)"
proof (cases "currentPage s = Explanation \<and> \<not> moreTasksRemain P s")
  case True
  hence last: "currentPage s = Explanation" "\<not> moreTasksRemain P s" by simp_all
  note sc = subjectCompleted_fields [of P env s s]
  from last show ?thesis
  proof (cases rule: handleNext_last_cases [where env = env])
    case stopped
    thus ?thesis using sc last by simp
  next
    case went_on
    thus ?thesis
      using sc last nextSubject_fields [of P env s "fst (settled (subjectCompleted P env s s))"]
      by (simp add: coinCalls_append)
  qed
next
  case False
  then show ?thesis
    by (auto simp: handleNext_def moreTasks_iff coinCalls_def)
qed

lemma awardsFrom_simps:
  "awardsFrom orig [] = 0"
  "awardsFrom orig [AddCoins orig' user n] = (if orig' = orig then 1 else 0)"
  by (simp_all add: awardsFrom_def)

lemma handleAnswerSelect_fields:
  "awardedBonuses (fst (handleAnswerSelect P added a s)) = awardedBonuses s
   \<and> ((coinCalls (snd (handleAnswerSelect P added a s)) = []
        \<and> awardedQuestions (fst (handleAnswerSelect P added a s)) = awardedQuestions s)
       \<or> (\<exists>key user n. key \<notin> awardedQuestions s
            \<and> coinCalls (snd (handleAnswerSelect P added a s)) = [AddCoins (ForQuestion key) user n]
            \<and> awardedQuestions (fst (handleAnswerSelect P added a s)) =
                insert key (awardedQuestions s)))"
proof (cases "selectedAnswer s \<noteq> None \<or> currentTask P s = None \<or> \<not> truthy (currentSubject P s)")
  case True
  then have "handleAnswerSelect P added a s = (s, [])"
    by (simp add: handleAnswerSelect_def)
  then show ?thesis by (simp add: coinCalls_def)
next
  case False
  then obtain t subj where ts: "selectedAnswer s = None" "currentTask P s = Some t"
    "currentSubject P s = Some subj"
    by (auto simp: truthy_def split: option.splits)
  note h = handleAnswerSelect_accepted [OF ts, of added a]
  have pay': "pays P (s\<lparr>selectedAnswer := Some a\<rparr>) k = pays P s k" for k
    by (simp add: pays_def)
  show ?thesis
    by (simp add: h Let_def awardCoins_coinCalls pay') (simp add: pays_def)
qed

lemma handleAnswerSelect_marks:
  "awardsFrom orig (snd (handleAnswerSelect P added a s)) \<le> 1
   \<and> (0 < awardsFrom orig (snd (handleAnswerSelect P added a s)) \<longrightarrow> \<not> marked orig s)
   \<and> (marked orig s \<or> 0 < awardsFrom orig (snd (handleAnswerSelect P added a s))
        \<longrightarrow> marked orig (fst (handleAnswerSelect P added a s)))"
  using handleAnswerSelect_fields [of P added a s]
  by (cases orig) (auto simp: awardsFrom_coinCalls [of _ "snd (handleAnswerSelect P added a s)"]
      awardsFrom_simps split: if_splits)

lemma handleNext_marks:
  "awardsFrom orig (snd (handleNext P env s)) \<le> 1
   \<and> (0 < awardsFrom orig (snd (handleNext P env s)) \<longrightarrow> \<not> marked orig s)
   \<and> (marked orig s \<or> 0 < awardsFrom orig (snd (handleNext P env s))
        \<longrightarrow> marked orig (fst (handleNext P env s)))"
  using handleNext_awards [of P env s]
  by (cases orig) (auto simp: awardsFrom_coinCalls [of _ "snd (handleNext P env s)"]
      awardsFrom_simps perfectScore_def split: if_splits)

lemma claimBonus_marks:
  "awardsFrom orig (snd (claimBonus P claimed s)) = 0
   \<and> marked orig (fst (claimBonus P claimed s)) = marked orig s"
  by (cases orig) (auto simp: claimBonus_def awardsFrom_def Let_def split: sum.splits)

lemma handle_marks:
  "awardsFrom orig (snd (handle P e s)) \<le> 1
   \<and> (0 < awardsFrom orig (snd (handle P e s)) \<longrightarrow> \<not> marked orig s)
   \<and> (marked orig s \<or> 0 < awardsFrom orig (snd (handle P e s))
        \<longrightarrow> marked orig (fst (handle P e s)))"
proof (cases e)
  case (AnswerSelect added a)
  then show ?thesis using handleAnswerSelect_marks [of orig P added a s] by (simp add: handle_def)
next
  case (Next env)
  then show ?thesis using handleNext_marks [of orig P env s] by (simp add: handle_def)
next
  case Back
  have "marked orig (handleBack P s) = marked orig s"
    by (cases orig) (simp_all add: handleBack_def Let_def split: option.splits)
  then show ?thesis using Back by (simp add: handle_def awardsFrom_def)
next
  case (Claim claimed)
  then show ?thesis using claimBonus_marks [of orig P claimed s] by (simp add: handle_def)
qed

lemma awardsFrom_append:
  "awardsFrom orig (xs @ ys) = awardsFrom orig xs + awardsFrom orig ys"
  by (simp add: awardsFrom_def)

text \<open>
  The invariant of a run: a call site has issued at most one \<^verbatim>\<open>addCoins\<close>, and
  once it has issued one its mark is set.
\<close>

lemma run_marks:
  "awardsFrom orig (snd sc) \<le> 1 \<Longrightarrow> (0 < awardsFrom orig (snd sc) \<longrightarrow> marked orig (fst sc)) \<Longrightarrow>
   awardsFrom orig (snd (run P es sc)) \<le> 1
   \<and> (0 < awardsFrom orig (snd (run P es sc)) \<longrightarrow> marked orig (fst (run P es sc)))"
proof (induction es arbitrary: sc)
  case Nil
  then show ?case by simp
next
  case (Cons e es)
  obtain s' calls where h: "handle P e (fst sc) = (s', calls)" by (cases "handle P e (fst sc)")
  note m = handle_marks [of orig P e "fst sc"]
  have a: "awardsFrom orig (snd sc @ calls) \<le> 1"
    using m Cons.prems by (auto simp: h awardsFrom_append)
  have b: "0 < awardsFrom orig (snd sc @ calls) \<longrightarrow> marked orig s'"
    using m Cons.prems by (auto simp: h awardsFrom_append)
  show ?case
    using Cons.IH [of "(s', snd sc @ calls)"] a b by (simp add: h)
qed

lemma startSession_marks:
  "awardsFrom orig (snd (startSession P fetched)) = 0"
  by (simp add: startSession_def resetEffect_def loadReminders_def Let_def awardsFrom_def
      split: sum.splits)

lemma run_from_start:
  "awardsFrom orig (snd (run P es (startSession P fetched))) \<le> 1"
  using run_marks [of orig "startSession P fetched" P es] by (simp add: startSession_marks)

text \<open>
  Claim C1: in every session, whatever handlers are invoked in whatever order and
  whatever the Reward Ledger answers, at most one \<^verbatim>\<open>addCoins\<close> call is issued for a
  question key, in particular for the key of a triple of subject, task index and question
  text. \<^verbatim>\<open>awardCoins\<close> issues no call for a key that is in \<^verbatim>\<open>awardedQuestions\<close>,
  and when it issues one the key is in the set it leaves, also when the call fails.
\<close>

theorem coins_awarded_once:
  "awardsFrom (ForQuestion key) (snd (run P es (startSession P fetched))) \<le> 1
   \<and> awardsFrom (ForQuestion (questionKey subj i q)) (snd (run P es (startSession P fetched))) \<le> 1
   \<and> (key \<in> awardedQuestions s \<longrightarrow> coinCalls (snd (awardCoins P added c key s)) = [])
   \<and> (coinCalls (snd (awardCoins P added c key s)) \<noteq> [] \<longrightarrow>
        key \<in> awardedQuestions (fst (awardCoins P added c key s)))"
  using run_from_start [of "ForQuestion key" P es fetched]
    run_from_start [of "ForQuestion (questionKey subj i q)" P es fetched]
  by (simp add: awardCoins_coinCalls awardCoins_state pays_def)

text \<open>
  A key that is marked, a key that is not, and a run that answers the first task three
  times, the last time with a failing ledger call.
\<close>

theorem coins_awarded_once_witness:
  "''Math-0-q1'' \<in> awardedQuestions (after firstAnswered)
   \<and> coinCalls (snd (awardCoins propsTwo (Inr 20) True ''Math-0-q1'' (after firstAnswered))) = []
   \<and> coinCalls (snd (awardCoins propsTwo (Inl ()) True ''Math-0-q1'' (after toFirstTask))) \<noteq> []
   \<and> ''Math-0-q1'' \<in>
        awardedQuestions (fst (awardCoins propsTwo (Inl ()) True ''Math-0-q1'' (after toFirstTask)))
   \<and> awardsFrom (ForQuestion (questionKey ''Math'' 0 ''q1''))
        (snd (run propsTwo
               [Next replies0, Next replies0, AnswerSelect (Inr 10) 1, Back,
                AnswerSelect (Inr 10) 1, Back, AnswerSelect (Inl ()) 1]
               (startSession propsTwo (Inr fetchedTwo)))) \<le> 1"
proof -
  have h1: "''Math-0-q1'' \<in> awardedQuestions (after firstAnswered)" by code_simp
  have h2: "coinCalls (snd (awardCoins propsTwo (Inl ()) True ''Math-0-q1'' (after toFirstTask))) \<noteq> []"
    by code_simp
  note a = coins_awarded_once [of "''Math-0-q1''" propsTwo
      "[Next replies0, Next replies0, AnswerSelect (Inr 10) 1, Back,
        AnswerSelect (Inr 10) 1, Back, AnswerSelect (Inl ()) 1]"
      "Inr fetchedTwo" "''Math''" 0 "''q1''" "after firstAnswered" "Inr 20" True]
  note b = coins_awarded_once [of "''Math-0-q1''" propsTwo "[]" "Inr fetchedTwo" "''Math''" 0 "''q1''"
      "after toFirstTask" "Inl ()" True]
  have c1: "coinCalls (snd (awardCoins propsTwo (Inr 20) True ''Math-0-q1'' (after firstAnswered))) = []"
    using a h1 by iprover
  have c2: "''Math-0-q1'' \<in>
        awardedQuestions (fst (awardCoins propsTwo (Inl ()) True ''Math-0-q1'' (after toFirstTask)))"
    using b h2 by iprover
  have c3: "awardsFrom (ForQuestion (questionKey ''Math'' 0 ''q1''))
        (snd (run propsTwo
               [Next replies0, Next replies0, AnswerSelect (Inr 10) 1, Back,
                AnswerSelect (Inr 10) 1, Back, AnswerSelect (Inl ()) 1]
               (startSession propsTwo (Inr fetchedTwo)))) \<le> 1"
    using a by iprover
  show ?thesis using h1 h2 c1 c2 c3 by iprover
qed

section \<open>Leaving the last explanation of a subject\<close>



lemma subjectCompleted_total:
  "totalCoinsEarned (fst (settled (subjectCompleted P env s0 s))) =
     totalCoinsEarned s
     + (if truthy (currentSubject P s0) \<and> truthy (username P) \<and> \<not> isl (markReply env)
           \<and> perfectScore P s0 (the (currentSubject P s0)) \<and> \<not> isl (addCoinsReply env)
        then 20 else 0)"
proof (cases "perfectScore P s0 (the (currentSubject P s0))")
  case True
  thus ?thesis
    by (auto simp: subjectCompleted_def perfectScoreBonus_def perfectScore_def tasksLength_three
        andThen_def settled_def Let_def split: sum.splits)
next
  case False
  thus ?thesis
    by (auto simp: subjectCompleted_def perfectScoreBonus_skipped andThen_def settled_def
        Let_def split: sum.splits)
qed

lemma handleNext_total:
  "totalCoinsEarned (fst (handleNext P env s)) =
     totalCoinsEarned s
     + (if currentPage s = Explanation \<and> \<not> moreTasksRemain P s
           \<and> truthy (currentSubject P s) \<and> truthy (username P) \<and> \<not> isl (markReply env)
           \<and> perfectScore P s (the (currentSubject P s)) \<and> \<not> isl (addCoinsReply env)
        then 20 else 0)"
proof (cases "currentPage s = Explanation \<and> \<not> moreTasksRemain P s")
  case True
  hence last: "currentPage s = Explanation" "\<not> moreTasksRemain P s" by simp_all
  note sc = subjectCompleted_total [of P env s s]
  from last show ?thesis
  proof (cases rule: handleNext_last_cases [where env = env])
    case stopped
    thus ?thesis using sc last by simp
  next
    case went_on
    thus ?thesis
      using sc last nextSubject_no_coins [of P env s "fst (settled (subjectCompleted P env s s))"]
      by simp
  qed
next
  case False
  then show ?thesis
    by (auto simp: handleNext_def moreTasks_iff)
qed







text \<open>
  The last branch read in two parts, up to \<^verbatim>\<open>await markSubjectCompleted(...)\<close> and
  from there on. The two parts together are \<^verbatim>\<open>handleNext\<close> when nothing happens in
  between. When \<^verbatim>\<open>Next\<close> is pressed twice in one render, both invocations read
  \<^verbatim>\<open>awardedBonuses\<close> from that render, both pass the guard of line 195, and the
  bonus of a perfect subject is issued twice and, when both calls resolve, paid twice.
\<close>

lemma resume_same_render:
  assumes "currentPage s = Explanation" "\<not> moreTasksRemain P s"
    "truthy (currentSubject P s)" "truthy (username P)" "markReply env = Inr u"
  shows "handleNext P env s =
     (fst (resumeAfterMarking P env s s),
      MarkSubjectCompleted (the (username P)) (the (currentSubject P s))
      # snd (resumeAfterMarking P env s s))"
  by (simp add: handleNext_last [OF assms(1,2)] subjectCompleted_marked [OF assms(3,4,5)]
      resumeAfterMarking_def andThen_def settled_def split: sum.splits prod.splits)

lemma resumeAfterMarking_perfect:
  assumes "currentSubject P s0 = Some subj" "perfectScore P s0 subj"
  shows "awardsFrom (ForPerfectScore subj) (snd (resumeAfterMarking P env s0 s)) = 1
     \<and> totalCoinsEarned (fst (resumeAfterMarking P env s0 s)) =
         totalCoinsEarned s + (if isl (addCoinsReply env) then 0 else 20)"
proof (cases "addCoinsReply env")
  case (Inl u)
  show ?thesis
    using assms
    by (simp add: resumeAfterMarking_def perfectScoreBonus_rejected [where u = u] Inl
        andThen_simps settled_simps awardsFrom_simps)
next
  case (Inr newCoins)
  have n: "awardsFrom (ForPerfectScore subj) (snd (settled (nextSubjectOrCompletion P env s0 s'))) = 0
      \<and> totalCoinsEarned (fst (settled (nextSubjectOrCompletion P env s0 s'))) = totalCoinsEarned s'"
    for s'
    by (simp add: nextSubjectOrCompletion_def settled_def Let_def awardsFrom_def split: sum.splits)
  have cons: "awardsFrom orig (c # cs) = (if issuedFrom orig c then 1 else 0) + awardsFrom orig cs"
    for orig c cs
    by (simp add: awardsFrom_def)
  show ?thesis
    using assms
    by (simp add: resumeAfterMarking_def perfectScoreBonus_granted [where newCoins = newCoins] Inr
        settled_andThen n awardsFrom_append cons awardsFrom_simps)
qed

lemma next_pressed_twice:
  assumes "currentSubject P s = Some subj" "perfectScore P s subj"
  shows "awardsFrom (ForPerfectScore subj)
           (snd (resumeAfterMarking P env s s)
            @ snd (resumeAfterMarking P env' s (fst (resumeAfterMarking P env s s)))) = 2
     \<and> (\<not> isl (addCoinsReply env) \<and> \<not> isl (addCoinsReply env') \<longrightarrow>
          totalCoinsEarned (fst (resumeAfterMarking P env' s (fst (resumeAfterMarking P env s s))))
            = totalCoinsEarned s + 40)"
  using resumeAfterMarking_perfect [OF assms, of env s]
    resumeAfterMarking_perfect [OF assms, of env' "fst (resumeAfterMarking P env s s)"]
  by (simp add: awardsFrom_append)

section \<open>A failed content fetch\<close>

lemma subjectsToDisplay_inline:
  "(if length (selectedSubjects P) > 0
    then filter (\<lambda>x. x \<in> set (filter (\<lambda>x. x \<noteq> []) (array_from_new_Set (map subject (lessons P)))))
           (selectedSubjects P)
    else filter (\<lambda>x. x \<noteq> []) (array_from_new_Set (map subject (lessons P))))
   = subjectsToDisplay P"
  by (simp add: subjectsToDisplay_def allUniqueSubjects_def)

lemma loadReminders_rejected:
  assumes "subjectsToDisplay P \<noteq> []"
  shows "loadReminders P (Inl msg) s =
     (s\<lparr>isLoading := False,
        error := Some (if truthy msg then the msg else fetchFailedMessage)\<rparr>,
      [GenerateRemindersForSubjects (subjectsToDisplay P),
       ConsoleError ''Error loading reminders:''])"
  using assms
  by (simp add: loadReminders_def Let_def subjectsToDisplay_inline del: length_greater_0_conv)

lemma message_shown:
  "(if truthy msg then the msg else fetchFailedMessage) \<noteq> []"
  by (cases msg) (simp_all add: truthy_def fetchFailedMessage_def)

lemma error_screen_offers:
  assumes "screen_of P s = ErrorScreen m"
  shows "offered P s b \<longleftrightarrow> b = CloseButton"
  using assms by (cases b) (simp_all add: offered_def)

lemma error_screen_press:
  assumes "screen_of P s = ErrorScreen m"
  shows "press P b s = (s, [])"
  using assms
  by (cases b)
     (simp_all add: press_def pressOption_def pressNext_def pressBack_def pressClaim_def
        error_screen_offers [OF assms])

lemma error_screen_presses:
  assumes "screen_of P s = ErrorScreen m"
  shows "presses P bs (s, calls) = (s, calls)"
  by (induction bs) (simp_all add: error_screen_press [OF assms])

text \<open>
  Claim C8: when the content fetch fails, \<^verbatim>\<open>loadReminders\<close> stores a message that
  is not empty and ends the loading, changing no other field of the session; it has
  issued the one fetch and logs the failure. The screen is then the error view, which
  shows the message and offers the close button only: no press changes the state or
  sends a call, whatever the user does, and closing is what remains.
\<close>

theorem fetch_failure:
  "subjectsToDisplay P \<noteq> [] \<longrightarrow>
   (let s' = fst (loadReminders P (Inl msg) s);
        calls = snd (loadReminders P (Inl msg) s);
        m = (if truthy msg then the msg else fetchFailedMessage)
    in m \<noteq> []
       \<and> s' = s\<lparr>isLoading := False, error := Some m\<rparr>
       \<and> screen_of P s' = ErrorScreen m
       \<and> calls = [GenerateRemindersForSubjects (subjectsToDisplay P),
                  ConsoleError ''Error loading reminders:'']
       \<and> (\<forall>b. offered P s' b \<longleftrightarrow> b = CloseButton)
       \<and> (\<forall>bs. presses P bs (s', calls) = (s', calls))
       \<and> pressClose P s' = (s', [OnClose]))"
proof (intro impI)
  assume ne: "subjectsToDisplay P \<noteq> []"
  define m where "m = (if truthy msg then the msg else fetchFailedMessage)"
  define s' where "s' = s\<lparr>isLoading := False, error := Some m\<rparr>"
  have m: "m \<noteq> []" unfolding m_def by (rule message_shown)
  have l: "loadReminders P (Inl msg) s =
      (s', [GenerateRemindersForSubjects (subjectsToDisplay P),
            ConsoleError ''Error loading reminders:''])"
    unfolding s'_def m_def by (rule loadReminders_rejected [OF ne])
  have scr: "screen_of P s' = ErrorScreen m"
    using m by (simp add: screen_of_def s'_def truthy_def)
  have cl: "pressClose P s' = (s', [OnClose])"
    by (simp add: pressClose_def error_screen_offers [OF scr])
  show "let s' = fst (loadReminders P (Inl msg) s);
        calls = snd (loadReminders P (Inl msg) s);
        m = (if truthy msg then the msg else fetchFailedMessage)
    in m \<noteq> []
       \<and> s' = s\<lparr>isLoading := False, error := Some m\<rparr>
       \<and> screen_of P s' = ErrorScreen m
       \<and> calls = [GenerateRemindersForSubjects (subjectsToDisplay P),
                  ConsoleError ''Error loading reminders:'']
       \<and> (\<forall>b. offered P s' b \<longleftrightarrow> b = CloseButton)
       \<and> (\<forall>bs. presses P bs (s', calls) = (s', calls))
       \<and> pressClose P s' = (s', [OnClose])"
    unfolding Let_def l fst_conv snd_conv m_def [symmetric]
    using m scr cl error_screen_offers [OF scr] error_screen_presses [OF scr]
    by (simp add: s'_def)
qed

text \<open>
  A fetch that fails with a message, at the start of the session of \<open>juris\<close>.
\<close>

theorem fetch_failure_witness:
  "subjectsToDisplay propsTwo \<noteq> []
   \<and> fst (loadReminders propsTwo (Inl (Some ''Network request failed'')) initialSession)
       = initialSession\<lparr>isLoading := False, error := Some ''Network request failed''\<rparr>
   \<and> screen_of propsTwo (fst (loadReminders propsTwo (Inl (Some ''Network request failed'')) initialSession))
       = ErrorScreen ''Network request failed''
   \<and> snd (loadReminders propsTwo (Inl (Some ''Network request failed'')) initialSession)
       = [GenerateRemindersForSubjects [''Math'', ''Art''], ConsoleError ''Error loading reminders:'']
   \<and> \<not> offered propsTwo (fst (loadReminders propsTwo (Inl (Some ''Network request failed'')) initialSession))
         NextButton"
proof -
  have h: "subjectsToDisplay propsTwo \<noteq> []" by code_simp
  have v: "subjectsToDisplay propsTwo = [''Math'', ''Art'']"
    "truthy (Some ''Network request failed'')"
    by code_simp+
  note r = fetch_failure [of propsTwo "Some ''Network request failed''" initialSession,
      rule_format, OF h, unfolded Let_def]
  have c: "fst (loadReminders propsTwo (Inl (Some ''Network request failed'')) initialSession)
       = initialSession\<lparr>isLoading := False, error := Some ''Network request failed''\<rparr>
   \<and> screen_of propsTwo (fst (loadReminders propsTwo (Inl (Some ''Network request failed'')) initialSession))
       = ErrorScreen ''Network request failed''
   \<and> snd (loadReminders propsTwo (Inl (Some ''Network request failed'')) initialSession)
       = [GenerateRemindersForSubjects [''Math'', ''Art''], ConsoleError ''Error loading reminders:'']
   \<and> \<not> offered propsTwo (fst (loadReminders propsTwo (Inl (Some ''Network request failed'')) initialSession))
         NextButton"
    using r by (elim conjE) (simp add: v)
  show ?thesis using h c by iprover
qed

section \<open>The completion bonus\<close>

text \<open>Off the completion page the claim flag is down; the completion page is not left.\<close>

lemma subjectCompleted_flag:
  "canClaimCompletionBonus (fst (settled (subjectCompleted P env s0 s))) = canClaimCompletionBonus s
   \<and> hasClaimedBonus (fst (settled (subjectCompleted P env s0 s))) = hasClaimedBonus s
   \<and> currentPage (fst (settled (subjectCompleted P env s0 s))) = currentPage s
   \<and> AreAllDailyTasksCompleted user n \<notin> set (snd (settled (subjectCompleted P env s0 s)))
   \<and> filter isClaimCall (snd (settled (subjectCompleted P env s0 s))) = []"
  by (simp add: subjectCompleted_def perfectScoreBonus_def andThen_def settled_def Let_def
      split: sum.splits)

lemma nextSubject_flag:
  "hasClaimedBonus (fst (settled (nextSubjectOrCompletion P env s0 s))) = hasClaimedBonus s
   \<and> filter isClaimCall (snd (settled (nextSubjectOrCompletion P env s0 s))) = []"
  by (simp add: nextSubjectOrCompletion_def settled_def Let_def split: sum.splits)

lemma nextSubject_completion:
  assumes "currentPage s \<noteq> Completion"
  shows "(currentPage (fst (settled (nextSubjectOrCompletion P env s0 s))) \<noteq> Completion \<longrightarrow>
            canClaimCompletionBonus (fst (settled (nextSubjectOrCompletion P env s0 s)))
              = canClaimCompletionBonus s)
     \<and> (currentPage (fst (settled (nextSubjectOrCompletion P env s0 s))) = Completion \<longrightarrow>
          canClaimCompletionBonus (fst (settled (nextSubjectOrCompletion P env s0 s)))
            = (if truthy (username P) \<and> subjectsToDisplay P \<noteq> []
               then allCompleted env = Inr True \<and> alreadyClaimed env = Inr False
               else canClaimCompletionBonus s)
          \<and> (AreAllDailyTasksCompleted (the (username P)) (length (subjectsToDisplay P))
                \<in> set (snd (settled (nextSubjectOrCompletion P env s0 s)))
              \<longleftrightarrow> truthy (username P) \<and> subjectsToDisplay P \<noteq> []))"
  using assms
  by (auto simp: nextSubjectOrCompletion_def settled_def Let_def split: sum.splits)

lemma handleNext_other_pages:
  assumes "\<not> (currentPage s = Explanation \<and> \<not> moreTasksRemain P s)"
  shows "currentPage (fst (handleNext P env s)) \<noteq> Completion \<or> currentPage s = Completion"
    and "canClaimCompletionBonus (fst (handleNext P env s)) = canClaimCompletionBonus s"
    and "hasClaimedBonus (fst (handleNext P env s)) = hasClaimedBonus s"
    and "snd (handleNext P env s) = []"
    and "totalCoinsEarned (fst (handleNext P env s)) = totalCoinsEarned s"
  using assms by (auto simp: handleNext_def moreTasks_iff)

lemma handleNext_flag:
  assumes "currentPage s \<noteq> Completion" "\<not> canClaimCompletionBonus s"
  shows "currentPage (fst (handleNext P env s)) \<noteq> Completion \<longrightarrow>
           \<not> canClaimCompletionBonus (fst (handleNext P env s))"
    and "currentPage (fst (handleNext P env s)) = Completion \<longrightarrow>
           (canClaimCompletionBonus (fst (handleNext P env s)) \<longleftrightarrow>
              AreAllDailyTasksCompleted (the (username P)) (length (subjectsToDisplay P))
                \<in> set (snd (handleNext P env s))
              \<and> allCompleted env = Inr True \<and> alreadyClaimed env = Inr False)"
proof -
  note sc = subjectCompleted_flag [of P env s s "the (username P)" "length (subjectsToDisplay P)"]
  have pg: "currentPage (fst (settled (subjectCompleted P env s s))) \<noteq> Completion"
    using sc assms(1) by simp
  note nx = nextSubject_completion [OF pg, of P env s]
  show "currentPage (fst (handleNext P env s)) \<noteq> Completion \<longrightarrow>
           \<not> canClaimCompletionBonus (fst (handleNext P env s))"
  proof (cases "currentPage s = Explanation \<and> \<not> moreTasksRemain P s")
    case True
    hence last: "currentPage s = Explanation" "\<not> moreTasksRemain P s" by simp_all
    from last show ?thesis
    proof (cases rule: handleNext_last_cases [where env = env])
      case stopped
      thus ?thesis using sc assms by simp
    next
      case went_on
      thus ?thesis using sc nx assms by simp
    qed
  next
    case False
    then show ?thesis using assms handleNext_other_pages(2) [OF False] by simp
  qed
  show "currentPage (fst (handleNext P env s)) = Completion \<longrightarrow>
           (canClaimCompletionBonus (fst (handleNext P env s)) \<longleftrightarrow>
              AreAllDailyTasksCompleted (the (username P)) (length (subjectsToDisplay P))
                \<in> set (snd (handleNext P env s))
              \<and> allCompleted env = Inr True \<and> alreadyClaimed env = Inr False)"
  proof (cases "currentPage s = Explanation \<and> \<not> moreTasksRemain P s")
    case True
    hence last: "currentPage s = Explanation" "\<not> moreTasksRemain P s" by simp_all
    from last show ?thesis
    proof (cases rule: handleNext_last_cases [where env = env])
      case stopped
      thus ?thesis using sc assms by simp
    next
      case went_on
      thus ?thesis using sc nx assms by auto
    qed
  next
    case False
    then show ?thesis using assms handleNext_other_pages(1) [OF False] by simp
  qed
qed

lemma press_flag:
  assumes "currentPage s \<noteq> Completion \<longrightarrow> \<not> canClaimCompletionBonus s"
  shows "currentPage (fst (press P b s)) \<noteq> Completion \<longrightarrow>
           \<not> canClaimCompletionBonus (fst (press P b s))"
proof (cases b)
  case (PressOption i added)
  show ?thesis
  proof (cases "offered P s (OptionButton i)")
    case True
    then obtain t where t: "screen_of P s = SessionScreen" "currentPage s = Task"
      "selectedAnswer s = None" "currentTask P s = Some t"
      by (auto simp: offered_option)
    obtain subj where subj: "currentSubject P s = Some subj"
      using currentTask_Some_subject [OF t(4)] by (auto simp: truthy_def split: option.splits)
    show ?thesis
      using assms t True PressOption
      by (simp add: press_def pressOption_def handleAnswerSelect_accepted [OF t(3,4) subj] Let_def)
  next
    case False
    then show ?thesis using assms PressOption by (simp add: press_def pressOption_def)
  qed
next
  case (PressNext env)
  show ?thesis
  proof (cases "offered P s NextButton")
    case True
    then have pg: "currentPage s \<noteq> Completion"
      by (auto simp: offered_def split: screen.splits)
    then show ?thesis
      using assms handleNext_flag(1) [of s P env] True PressNext
      by (simp add: press_def pressNext_def)
  next
    case False
    then show ?thesis using assms PressNext by (simp add: press_def pressNext_def)
  qed
next
  case PressBack
  show ?thesis
  proof (cases "offered P s BackButton")
    case True
    then have "currentPage s = Theory2 \<or> currentPage s = Explanation"
      by (auto simp: offered_def split: screen.splits)
    then show ?thesis
      using assms True PressBack by (auto simp: press_def pressBack_def handleBack_def)
  next
    case False
    then show ?thesis using assms PressBack by (simp add: press_def pressBack_def)
  qed
next
  case (PressClaim claimed)
  show ?thesis
  proof (cases "offered P s ClaimButton")
    case True
    then have "currentPage s = Completion"
      by (auto simp: offered_def split: screen.splits)
    then show ?thesis
      using True PressClaim
      by (simp add: press_def pressClaim_def claimBonus_def Let_def split: sum.splits)
  next
    case False
    then show ?thesis using assms PressClaim by (simp add: press_def pressClaim_def)
  qed
qed

lemma presses_flag:
  "(currentPage (fst sc) \<noteq> Completion \<longrightarrow> \<not> canClaimCompletionBonus (fst sc)) \<Longrightarrow>
   currentPage (fst (presses P bs sc)) \<noteq> Completion \<longrightarrow>
     \<not> canClaimCompletionBonus (fst (presses P bs sc))"
proof (induction bs arbitrary: sc)
  case Nil
  then show ?case by simp
next
  case (Cons b bs)
  obtain s' calls where h: "press P b (fst sc) = (s', calls)" by (cases "press P b (fst sc)")
  have "currentPage s' \<noteq> Completion \<longrightarrow> \<not> canClaimCompletionBonus s'"
    using press_flag [of "fst sc" P b] Cons.prems by (simp add: h)
  then show ?case using Cons.IH [of "(s', snd sc @ calls)"] by (simp add: h)
qed

lemma startSession_flag: "\<not> canClaimCompletionBonus (fst (startSession P fetched))"
  by (simp add: startSession_def resetEffect_def loadReminders_def Let_def initialSession_def
      split: sum.splits)

lemma session_flag:
  "currentPage (fst (presses P bs (startSession P fetched))) \<noteq> Completion \<longrightarrow>
     \<not> canClaimCompletionBonus (fst (presses P bs (startSession P fetched)))"
  by (rule presses_flag) (simp add: startSession_flag)

lemma awardCoins_no_claim: "filter isClaimCall (snd (awardCoins P added c k s)) = []"
  by (simp add: awardCoins_def Let_def split: sum.splits)

lemma handleAnswerSelect_no_claim:
  "filter isClaimCall (snd (handleAnswerSelect P added a s)) = []
   \<and> hasClaimedBonus (fst (handleAnswerSelect P added a s)) = hasClaimedBonus s
   \<and> totalCoinsEarned (fst (handleAnswerSelect P added a s)) \<le> totalCoinsEarned s + 20"
proof (cases "selectedAnswer s \<noteq> None \<or> currentTask P s = None \<or> \<not> truthy (currentSubject P s)")
  case True
  then have "handleAnswerSelect P added a s = (s, [])"
    by (simp add: handleAnswerSelect_def)
  then show ?thesis by simp
next
  case False
  then obtain t subj where ts: "selectedAnswer s = None" "currentTask P s = Some t"
    "currentSubject P s = Some subj"
    by (auto simp: truthy_def split: option.splits)
  show ?thesis
    by (simp add: handleAnswerSelect_accepted [OF ts] Let_def awardCoins_no_claim)
qed

lemma handleNext_no_claim:
  "filter isClaimCall (snd (handleNext P env s)) = []
   \<and> hasClaimedBonus (fst (handleNext P env s)) = hasClaimedBonus s
   \<and> totalCoinsEarned (fst (handleNext P env s)) \<le> totalCoinsEarned s + 20"
proof (cases "currentPage s = Explanation \<and> \<not> moreTasksRemain P s")
  case True
  hence last: "currentPage s = Explanation" "\<not> moreTasksRemain P s" by simp_all
  note sc = subjectCompleted_flag [of P env s s]
  have total: "totalCoinsEarned (fst (handleNext P env s)) \<le> totalCoinsEarned s + 20"
    by (simp add: handleNext_total)
  from last show ?thesis
  proof (cases rule: handleNext_last_cases [where env = env])
    case stopped
    thus ?thesis using sc total by simp
  next
    case went_on
    thus ?thesis
      using sc total nextSubject_flag [of P env s "fst (settled (subjectCompleted P env s s))"]
      by simp
  qed
next
  case False
  then show ?thesis using handleNext_other_pages [OF False, of env] by simp
qed

lemma press_no_claim:
  assumes "\<forall>claimed. b \<noteq> PressClaim claimed"
  shows "filter isClaimCall (snd (press P b s)) = []
     \<and> hasClaimedBonus (fst (press P b s)) = hasClaimedBonus s
     \<and> totalCoinsEarned (fst (press P b s)) \<le> totalCoinsEarned s + 20"
proof (cases b)
  case (PressOption i added)
  then show ?thesis
    using handleAnswerSelect_no_claim [of P added "int i" s]
    by (simp add: press_def pressOption_def)
next
  case (PressNext env)
  then show ?thesis
    using handleNext_no_claim [of P env s] by (simp add: press_def pressNext_def)
next
  case PressBack
  then show ?thesis
    by (simp add: press_def pressBack_def handleBack_def Let_def split: option.splits)
next
  case (PressClaim claimed)
  then show ?thesis using assms by simp
qed

lemma claim_succeeds:
  assumes "offered P s ClaimButton" "truthy (username P)" "success r" "coins r \<noteq> None"
  shows "pressClaim P (Inr r) s =
     (s\<lparr>hasClaimedBonus := True, totalCoinsEarned := totalCoinsEarned s + 100,
        canClaimCompletionBonus := False\<rparr>,
      [ClaimCompletionBonus (the (username P))]
      @ (if hasOnCoinsUpdated P then [OnCoinsUpdated (the (coins r))] else [])
      @ [Alert ''Bonus Claimed!'' ''You received 100 coins for completing all daily tasks!''])"
  using assms by (simp add: pressClaim_def claimBonus_def Let_def)

lemma claim_fails:
  "\<not> (success r \<and> coins r \<noteq> None) \<Longrightarrow> fst (pressClaim P (Inr r) s) = s"
  "fst (pressClaim P (Inl u) s) = s"
  by (auto simp: pressClaim_def claimBonus_def Let_def)

lemma claimed_not_offered:
  "hasClaimedBonus s \<or> \<not> canClaimCompletionBonus s \<Longrightarrow> \<not> offered P s ClaimButton"
  by (auto simp: offered_def split: screen.splits)

lemma claimAll_claimed:
  "user \<in> claimedToday L \<Longrightarrow> successesOf user (claimAll L users) = 0"
proof (induction users arbitrary: L)
  case Nil
  show ?case by (simp add: successesOf_def)
next
  case (Cons u us)
  obtain L' r where c: "claimCompletionBonus L u = (L', r)" by (cases "claimCompletionBonus L u")
  have keep: "user \<in> claimedToday L'"
    using c Cons.prems by (auto simp: claimCompletionBonus_def split: if_splits)
  have fail: "u = user \<longrightarrow> \<not> success r"
    using c Cons.prems by (auto simp: claimCompletionBonus_def split: if_splits)
  show ?case
    using Cons.IH [OF keep] fail by (simp add: c successesOf_def)
qed

lemma claimAll_once: "successesOf user (claimAll L users) \<le> 1"
proof (induction users arbitrary: L)
  case Nil
  show ?case by (simp add: successesOf_def)
next
  case (Cons u us)
  obtain L' r where c: "claimCompletionBonus L u = (L', r)" by (cases "claimCompletionBonus L u")
  have unfold: "claimAll L (u # us) = (u, r) # claimAll L' us" by (simp add: c)
  show ?case
  proof (cases "u = user \<and> success r")
    case True
    then have "user \<in> claimedToday L'"
      using c by (auto simp: claimCompletionBonus_def split: if_splits)
    then have "successesOf user (claimAll L' us) = 0" by (rule claimAll_claimed)
    then show ?thesis using True unfolding unfold by (simp add: successesOf_def)
  next
    case False
    then show ?thesis using Cons.IH [of L'] unfolding unfold by (auto simp: successesOf_def)
  qed
qed

lemma reaching_completion:
  "(let s = fst (presses P bs (startSession P fetched));
        s' = fst (pressNext P env s);
        calls = snd (pressNext P env s)
    in currentPage s \<noteq> Completion \<and> currentPage s' = Completion \<longrightarrow>
         (canClaimCompletionBonus s' \<longleftrightarrow>
            AreAllDailyTasksCompleted (the (username P)) (length (subjectsToDisplay P)) \<in> set calls
            \<and> allCompleted env = Inr True \<and> alreadyClaimed env = Inr False))"
proof -
  define s where "s = fst (presses P bs (startSession P fetched))"
  have flag: "currentPage s \<noteq> Completion \<longrightarrow> \<not> canClaimCompletionBonus s"
    unfolding s_def by (rule session_flag)
  have "currentPage s \<noteq> Completion \<and> currentPage (fst (pressNext P env s)) = Completion \<longrightarrow>
         (canClaimCompletionBonus (fst (pressNext P env s)) \<longleftrightarrow>
            AreAllDailyTasksCompleted (the (username P)) (length (subjectsToDisplay P))
              \<in> set (snd (pressNext P env s))
            \<and> allCompleted env = Inr True \<and> alreadyClaimed env = Inr False)"
  proof (cases "offered P s NextButton")
    case True
    then show ?thesis
      using flag handleNext_flag(2) [of s P env] by (auto simp: pressNext_def)
  next
    case False
    then show ?thesis by (simp add: pressNext_def)
  qed
  then show ?thesis by (simp add: Let_def s_def)
qed

lemma ledger_claims:
  "(let L1 = fst (claimCompletionBonus L user);
        r1 = snd (claimCompletionBonus L user);
        L2 = fst (claimCompletionBonus L1 user);
        r2 = snd (claimCompletionBonus L1 user)
    in (success r1 \<longleftrightarrow> \<not> hasClaimedCompletionBonusToday L user)
       \<and> (success r1 \<longrightarrow> balance L1 user = balance L user + 100 \<and> coins r1 = Some (balance L1 user))
       \<and> hasClaimedCompletionBonusToday L1 user
       \<and> \<not> success r2 \<and> L2 = L1)"
  by (simp add: claimCompletionBonus_def hasClaimedCompletionBonusToday_def Let_def)

lemma claims_on_ledger:
  assumes "offered P s0 ClaimButton" "username P = Some user" "user \<noteq> []"
  shows "(let Ls1 = fst (claimOnLedger P (L, s0));
              Ls2 = fst (claimOnLedger P Ls1)
          in (\<not> hasClaimedCompletionBonusToday L user \<longrightarrow>
                totalCoinsEarned (snd Ls1) = totalCoinsEarned s0 + 100
                \<and> balance (fst Ls1) user = balance L user + 100
                \<and> snd (claimOnLedger P Ls1) = [])
             \<and> (hasClaimedCompletionBonusToday L user \<longrightarrow> Ls1 = (L, s0))
             \<and> hasClaimedCompletionBonusToday (fst Ls1) user
             \<and> Ls2 = Ls1)"
proof (cases "user \<in> claimedToday L")
  case True
  have tr: "truthy (username P)" using assms by (simp add: truthy_def)
  have one: "fst (claimOnLedger P (L, s0)) = (L, s0)"
    using assms tr True
    by (simp add: claimOnLedger_def claimCompletionBonus_def claimBonus_def Let_def)
  show ?thesis
    using True by (simp add: Let_def one hasClaimedCompletionBonusToday_def)
next
  case False
  have tr: "truthy (username P)" using assms by (simp add: truthy_def)
  define L1 where "L1 = L\<lparr>balance := (balance L)(user := balance L user + 100),
                          claimedToday := insert user (claimedToday L)\<rparr>"
  define s1 where "s1 = s0\<lparr>hasClaimedBonus := True, totalCoinsEarned := totalCoinsEarned s0 + 100,
                           canClaimCompletionBonus := False\<rparr>"
  have one: "fst (claimOnLedger P (L, s0)) = (L1, s1)"
    using assms tr False
    by (simp add: claimOnLedger_def claimCompletionBonus_def claimBonus_def Let_def L1_def s1_def)
  have no: "\<not> offered P s1 ClaimButton"
    by (rule claimed_not_offered) (simp add: s1_def)
  have two: "claimOnLedger P (L1, s1) = ((L1, s1), [])"
    using no by (simp add: claimOnLedger_def)
  show ?thesis
    using False
    by (simp add: Let_def one two hasClaimedCompletionBonusToday_def)
       (simp add: L1_def s1_def)
qed

text \<open>
  Claim C5. In a session, off the completion page the claim flag is down; when
  \<^verbatim>\<open>Next\<close> reaches the completion page the flag is up if and only if the Reward
  Ledger was asked whether all subjects displayed are complete and answered yes, and
  answered that the day's bonus is not yet claimed. No press other than the claim button
  sends a claim to the ledger or sets \<^verbatim>\<open>hasClaimedBonus\<close>, and none adds more than 20
  coins. A claim that the ledger grants adds 100 coins to the session's total, sets
  \<^verbatim>\<open>hasClaimedBonus\<close> and takes the claim button away, so that a second press does
  nothing; a claim the ledger refuses, or that fails, leaves the session as it was.
  In the ledger as the specification describes it, a claim succeeds exactly if the user
  has not claimed that day and then marks the day's bonus as claimed; a second claim
  fails and changes nothing; among all the claims of a day at most one of a user
  succeeds.
\<close>

theorem completion_bonus:
  "(let s = fst (presses P bs (startSession P fetched));
        s' = fst (pressNext P env s);
        calls = snd (pressNext P env s)
    in currentPage s \<noteq> Completion \<and> currentPage s' = Completion \<longrightarrow>
         (canClaimCompletionBonus s' \<longleftrightarrow>
            AreAllDailyTasksCompleted (the (username P)) (length (subjectsToDisplay P)) \<in> set calls
            \<and> allCompleted env = Inr True \<and> alreadyClaimed env = Inr False))
   \<and> ((\<forall>claimed. b \<noteq> PressClaim claimed) \<longrightarrow>
        filter isClaimCall (snd (press P b s0)) = []
        \<and> hasClaimedBonus (fst (press P b s0)) = hasClaimedBonus s0
        \<and> totalCoinsEarned (fst (press P b s0)) \<le> totalCoinsEarned s0 + 20)
   \<and> (offered P s0 ClaimButton \<and> truthy (username P) \<and> success r \<and> coins r \<noteq> None \<longrightarrow>
        (let s1 = fst (pressClaim P (Inr r) s0)
         in totalCoinsEarned s1 = totalCoinsEarned s0 + 100
            \<and> hasClaimedBonus s1 \<and> \<not> canClaimCompletionBonus s1
            \<and> ClaimCompletionBonus (the (username P)) \<in> set (snd (pressClaim P (Inr r) s0))
            \<and> \<not> offered P s1 ClaimButton
            \<and> pressClaim P again s1 = (s1, [])))
   \<and> (\<not> (success r \<and> coins r \<noteq> None) \<longrightarrow> fst (pressClaim P (Inr r) s0) = s0)
   \<and> fst (pressClaim P (Inl ()) s0) = s0
   \<and> (let L1 = fst (claimCompletionBonus L user);
           r1 = snd (claimCompletionBonus L user);
           L2 = fst (claimCompletionBonus L1 user);
           r2 = snd (claimCompletionBonus L1 user)
       in (success r1 \<longleftrightarrow> \<not> hasClaimedCompletionBonusToday L user)
          \<and> (success r1 \<longrightarrow>
               balance L1 user = balance L user + 100 \<and> coins r1 = Some (balance L1 user))
          \<and> hasClaimedCompletionBonusToday L1 user
          \<and> \<not> success r2 \<and> L2 = L1)
   \<and> successesOf user (claimAll L users) \<le> 1
   \<and> (offered P s0 ClaimButton \<and> username P = Some user \<and> user \<noteq> [] \<longrightarrow>
        (let Ls1 = fst (claimOnLedger P (L, s0));
             Ls2 = fst (claimOnLedger P Ls1)
         in (\<not> hasClaimedCompletionBonusToday L user \<longrightarrow>
               totalCoinsEarned (snd Ls1) = totalCoinsEarned s0 + 100
               \<and> balance (fst Ls1) user = balance L user + 100
               \<and> snd (claimOnLedger P Ls1) = [])
            \<and> (hasClaimedCompletionBonusToday L user \<longrightarrow> Ls1 = (L, s0))
            \<and> hasClaimedCompletionBonusToday (fst Ls1) user
            \<and> Ls2 = Ls1))"
proof (intro conjI)
  show "let s = fst (presses P bs (startSession P fetched));
        s' = fst (pressNext P env s);
        calls = snd (pressNext P env s)
    in currentPage s \<noteq> Completion \<and> currentPage s' = Completion \<longrightarrow>
         (canClaimCompletionBonus s' \<longleftrightarrow>
            AreAllDailyTasksCompleted (the (username P)) (length (subjectsToDisplay P)) \<in> set calls
            \<and> allCompleted env = Inr True \<and> alreadyClaimed env = Inr False)"
    by (rule reaching_completion)
next
  show "(\<forall>claimed. b \<noteq> PressClaim claimed) \<longrightarrow>
        filter isClaimCall (snd (press P b s0)) = []
        \<and> hasClaimedBonus (fst (press P b s0)) = hasClaimedBonus s0
        \<and> totalCoinsEarned (fst (press P b s0)) \<le> totalCoinsEarned s0 + 20"
    using press_no_claim [of b P s0] by blast
next
  show "offered P s0 ClaimButton \<and> truthy (username P) \<and> success r \<and> coins r \<noteq> None \<longrightarrow>
        (let s1 = fst (pressClaim P (Inr r) s0)
         in totalCoinsEarned s1 = totalCoinsEarned s0 + 100
            \<and> hasClaimedBonus s1 \<and> \<not> canClaimCompletionBonus s1
            \<and> ClaimCompletionBonus (the (username P)) \<in> set (snd (pressClaim P (Inr r) s0))
            \<and> \<not> offered P s1 ClaimButton
            \<and> pressClaim P again s1 = (s1, []))"
  proof (intro impI)
    assume a: "offered P s0 ClaimButton \<and> truthy (username P) \<and> success r \<and> coins r \<noteq> None"
    define s1 where "s1 = s0\<lparr>hasClaimedBonus := True, totalCoinsEarned := totalCoinsEarned s0 + 100,
                             canClaimCompletionBonus := False\<rparr>"
    have c: "pressClaim P (Inr r) s0 =
        (s1, [ClaimCompletionBonus (the (username P))]
             @ (if hasOnCoinsUpdated P then [OnCoinsUpdated (the (coins r))] else [])
             @ [Alert ''Bonus Claimed!'' ''You received 100 coins for completing all daily tasks!''])"
      unfolding s1_def using a by (intro claim_succeeds) simp_all
    have no: "\<not> offered P s1 ClaimButton"
      by (rule claimed_not_offered) (simp add: s1_def)
    show "let s1 = fst (pressClaim P (Inr r) s0)
         in totalCoinsEarned s1 = totalCoinsEarned s0 + 100
            \<and> hasClaimedBonus s1 \<and> \<not> canClaimCompletionBonus s1
            \<and> ClaimCompletionBonus (the (username P)) \<in> set (snd (pressClaim P (Inr r) s0))
            \<and> \<not> offered P s1 ClaimButton
            \<and> pressClaim P again s1 = (s1, [])"
      using no by (simp add: Let_def c) (simp add: s1_def pressClaim_def)
  qed
next
  show "\<not> (success r \<and> coins r \<noteq> None) \<longrightarrow> fst (pressClaim P (Inr r) s0) = s0"
    using claim_fails(1) [of r P s0] by blast
next
  show "fst (pressClaim P (Inl ()) s0) = s0" by (rule claim_fails(2))
next
  show "let L1 = fst (claimCompletionBonus L user);
           r1 = snd (claimCompletionBonus L user);
           L2 = fst (claimCompletionBonus L1 user);
           r2 = snd (claimCompletionBonus L1 user)
       in (success r1 \<longleftrightarrow> \<not> hasClaimedCompletionBonusToday L user)
          \<and> (success r1 \<longrightarrow>
               balance L1 user = balance L user + 100 \<and> coins r1 = Some (balance L1 user))
          \<and> hasClaimedCompletionBonusToday L1 user
          \<and> \<not> success r2 \<and> L2 = L1"
    by (rule ledger_claims)
next
  show "successesOf user (claimAll L users) \<le> 1" by (rule claimAll_once)
next
  show "offered P s0 ClaimButton \<and> username P = Some user \<and> user \<noteq> [] \<longrightarrow>
        (let Ls1 = fst (claimOnLedger P (L, s0));
             Ls2 = fst (claimOnLedger P Ls1)
         in (\<not> hasClaimedCompletionBonusToday L user \<longrightarrow>
               totalCoinsEarned (snd Ls1) = totalCoinsEarned s0 + 100
               \<and> balance (fst Ls1) user = balance L user + 100
               \<and> snd (claimOnLedger P Ls1) = [])
            \<and> (hasClaimedCompletionBonusToday L user \<longrightarrow> Ls1 = (L, s0))
            \<and> hasClaimedCompletionBonusToday (fst Ls1) user
            \<and> Ls2 = Ls1)"
    using claims_on_ledger [of P s0 user L] by blast
qed

text \<open>
  The session of \<open>juris\<close> reaching the completion page and claiming, and the ledger
  claimed twice.
\<close>

theorem completion_bonus_witness:
  "currentPage (after artPerfect) \<noteq> Completion
   \<and> currentPage (fst (pressNext propsTwo replies0 (after artPerfect))) = Completion
   \<and> AreAllDailyTasksCompleted ''juris'' 2 \<in> set (snd (pressNext propsTwo replies0 (after artPerfect)))
   \<and> allCompleted replies0 = Inr True \<and> alreadyClaimed replies0 = Inr False
   \<and> canClaimCompletionBonus (fst (pressNext propsTwo replies0 (after artPerfect)))
   \<and> (\<forall>claimed. PressNext replies0 \<noteq> PressClaim claimed)
   \<and> filter isClaimCall (snd (press propsTwo (PressNext replies0) (after artPerfect))) = []
   \<and> offered propsTwo (after toCompletion) ClaimButton
   \<and> truthy (username propsTwo) \<and> success grantedClaim \<and> coins grantedClaim \<noteq> None
   \<and> totalCoinsEarned (fst (pressClaim propsTwo (Inr grantedClaim) (after toCompletion))) = 200
   \<and> hasClaimedBonus (fst (pressClaim propsTwo (Inr grantedClaim) (after toCompletion)))
   \<and> \<not> offered propsTwo (fst (pressClaim propsTwo (Inr grantedClaim) (after toCompletion)))
         ClaimButton
   \<and> pressClaim propsTwo (Inr grantedClaim)
        (fst (pressClaim propsTwo (Inr grantedClaim) (after toCompletion)))
       = (fst (pressClaim propsTwo (Inr grantedClaim) (after toCompletion)), [])
   \<and> \<not> hasClaimedCompletionBonusToday ledger0 ''juris''
   \<and> success (snd (claimCompletionBonus ledger0 ''juris''))
   \<and> \<not> success (snd (claimCompletionBonus (fst (claimCompletionBonus ledger0 ''juris'')) ''juris''))
   \<and> successesOf ''juris'' (claimAll ledger0 [''juris'', ''anna'', ''juris'']) \<le> 1
   \<and> username propsTwo = Some ''juris''
   \<and> totalCoinsEarned (snd (fst (claimOnLedger propsTwo (ledger0, after toCompletion)))) = 200
   \<and> balance (fst (fst (claimOnLedger propsTwo (ledger0, after toCompletion)))) ''juris'' = 250
   \<and> fst (claimOnLedger propsTwo (fst (claimOnLedger propsTwo (ledger0, after toCompletion))))
       = fst (claimOnLedger propsTwo (ledger0, after toCompletion))"
proof -
  note t = completion_bonus [of propsTwo artPerfect "Inr fetchedTwo" replies0 "PressNext replies0"
      "after toCompletion" grantedClaim "Inr grantedClaim" ledger0 "''juris''"
      "[''juris'', ''anna'', ''juris'']"]
  have h1: "currentPage (after artPerfect) \<noteq> Completion
      \<and> currentPage (fst (pressNext propsTwo replies0 (after artPerfect))) = Completion"
    by code_simp
  have h1': "AreAllDailyTasksCompleted ''juris'' 2 \<in> set (snd (pressNext propsTwo replies0 (after artPerfect)))"
    "allCompleted replies0 = Inr True" "alreadyClaimed replies0 = Inr False"
    by code_simp+
  have v: "the (username propsTwo) = ''juris''" "length (subjectsToDisplay propsTwo) = 2"
    "totalCoinsEarned (after toCompletion) = 100" "balance ledger0 ''juris'' = 150"
    by code_simp+
  have c1: "canClaimCompletionBonus (fst (pressNext propsTwo replies0 (after artPerfect)))"
    using t [THEN conjunct1, unfolded Let_def after_def [symmetric], rule_format, OF h1] h1'
    by (simp add: v)
  have h2: "\<forall>claimed. PressNext replies0 \<noteq> PressClaim claimed" by simp
  have c2: "filter isClaimCall (snd (press propsTwo (PressNext replies0) (after artPerfect))) = []"
    using completion_bonus [of propsTwo "[]" "Inr fetchedTwo" replies0 "PressNext replies0"
        "after artPerfect" grantedClaim "Inr grantedClaim" ledger0 "''juris''" "[]",
        THEN conjunct2, THEN conjunct1, THEN mp, OF h2]
    by (rule conjunct1)
  have h3: "offered propsTwo (after toCompletion) ClaimButton
      \<and> truthy (username propsTwo) \<and> success grantedClaim \<and> coins grantedClaim \<noteq> None"
    by code_simp
  have c3: "totalCoinsEarned (fst (pressClaim propsTwo (Inr grantedClaim) (after toCompletion))) = 200
   \<and> hasClaimedBonus (fst (pressClaim propsTwo (Inr grantedClaim) (after toCompletion)))
   \<and> \<not> offered propsTwo (fst (pressClaim propsTwo (Inr grantedClaim) (after toCompletion)))
         ClaimButton
   \<and> pressClaim propsTwo (Inr grantedClaim)
        (fst (pressClaim propsTwo (Inr grantedClaim) (after toCompletion)))
       = (fst (pressClaim propsTwo (Inr grantedClaim) (after toCompletion)), [])"
    using t [THEN conjunct2, THEN conjunct2, THEN conjunct1, rule_format, OF h3]
    by (simp add: Let_def v)
  have h4: "\<not> hasClaimedCompletionBonusToday ledger0 ''juris''" by code_simp
  have c4: "success (snd (claimCompletionBonus ledger0 ''juris''))
   \<and> \<not> success (snd (claimCompletionBonus (fst (claimCompletionBonus ledger0 ''juris'')) ''juris''))"
    using t [THEN conjunct2, THEN conjunct2, THEN conjunct2, THEN conjunct2, THEN conjunct2,
        THEN conjunct1] h4
    by (simp add: Let_def)
  have c5: "successesOf ''juris'' (claimAll ledger0 [''juris'', ''anna'', ''juris'']) \<le> 1"
    using t [THEN conjunct2, THEN conjunct2, THEN conjunct2, THEN conjunct2, THEN conjunct2,
        THEN conjunct2, THEN conjunct1] .
  have h6: "offered propsTwo (after toCompletion) ClaimButton \<and> username propsTwo = Some ''juris''
      \<and> ''juris'' \<noteq> []"
    by code_simp
  have c6: "totalCoinsEarned (snd (fst (claimOnLedger propsTwo (ledger0, after toCompletion)))) = 200
   \<and> balance (fst (fst (claimOnLedger propsTwo (ledger0, after toCompletion)))) ''juris'' = 250
   \<and> fst (claimOnLedger propsTwo (fst (claimOnLedger propsTwo (ledger0, after toCompletion))))
       = fst (claimOnLedger propsTwo (ledger0, after toCompletion))"
    using t [THEN conjunct2, THEN conjunct2, THEN conjunct2, THEN conjunct2, THEN conjunct2,
        THEN conjunct2, THEN conjunct2, rule_format, OF h6] h4
    by (simp add: Let_def v)
  have u: "username propsTwo = Some ''juris''" using h6 by simp
  show ?thesis using h1 h1' c1 h2 c2 h3 c3 h4 c4 c5 u c6 by iprover
qed

end
